theory Spec2Isabelle
  imports Main "HOL-Library.Word" "HOL-Library.AList" "HOL-Library.Multiset"
begin

section \<open>Data model of mapper/transaction.go\<close>

text \<open>
  Go's \<^verbatim>\<open>*big.Int\<close> is \<^typ>\<open>int\<close>; \<^verbatim>\<open>uint64\<close> is \<^typ>\<open>64 word\<close>;
  \<^verbatim>\<open>int64\<close> operation indices are \<^typ>\<open>int\<close> (an index is a slice length plus a small
  offset, far below \<open>2^63\<close>, so the arithmetic on them never wraps).
  An \<^verbatim>\<open>Amount.Value\<close> is kept as the integer whose decimal rendering the Go code stores
  (\<^verbatim>\<open>big.Int.String\<close> and \<^verbatim>\<open>strconv.FormatUint\<close> are injective).
  Identifiers that the code only ever reads through \<^verbatim>\<open>String()\<close> or \<^verbatim>\<open>Hex()\<close>
  (transaction ids, asset ids, chain ids, the addresses of a flattened call) are kept as
  that rendering.
\<close>

type_synonym address = "160 word"
type_synonym hash = "256 word"

text \<open>
  How a call of the mapper can end other than by returning a value: an \<^verbatim>\<open>error\<close> handed
  back to the caller, \<^verbatim>\<open>log.Fatalf\<close> (the process exits), or a runtime panic.
\<close>

datatype error =
    Returned string
  | Fatal string int
  | Panic string

text \<open>
  Modelled from the spec: the operation-type and status constants (\<^verbatim>\<open>OpFee\<close>,
  \<^verbatim>\<open>OpCall\<close>, \<^verbatim>\<open>OpSelfDestruct\<close>, \<^verbatim>\<open>OpDestruct\<close>, \<^verbatim>\<open>StatusSuccess\<close>, ...) are
  declared in another file of package mapper. They are strings there; here each constant
  is a constructor of its own, and \<open>OtherType\<close> stands for any other type string a
  flattened call may carry.
\<close>

datatype op_type =
    OpCall | OpCallCode | OpDelegateCall | OpStaticCall
  | OpCreate | OpCreate2
  | OpSelfDestruct | OpDestruct
  | OpFee | OpImport | OpExport
  | OpErc20Transfer | OpErc20Mint | OpErc20Burn
  | OpErc721TransferSender | OpErc721TransferReceive | OpErc721Mint | OpErc721Burn
  | OtherType string

datatype op_status = StatusSuccess | StatusFailure

text \<open>
  Modelled from the spec: the classifiers \<^verbatim>\<open>CallType\<close> and \<^verbatim>\<open>CreateType\<close> are declared
  in another file of package mapper. The spec separates the "value-transfer call kinds"
  from the create kinds and from self-destruct.
\<close>

definition CallType :: "op_type \<Rightarrow> bool" where
  "CallType t = (t = OpCall \<or> t = OpCallCode \<or> t = OpDelegateCall \<or> t = OpStaticCall)"

definition CreateType :: "op_type \<Rightarrow> bool" where
  "CreateType t = (t = OpCreate \<or> t = OpCreate2)"

text \<open>
  Modelled from the spec: the two fixed native-asset currencies (whole-unit and atomic)
  and the helper \<^verbatim>\<open>ToCurrency(symbol, decimals, address)\<close> are declared elsewhere.
\<close>

datatype currency =
    AvaxCurrency
  | AtomicAvaxCurrency
  | ToCurrency string "8 word" string

record amount =
  Value :: int
  Currency :: currency

text \<open>
  An account is either built in place from a string
  (\<^verbatim>\<open>&types.AccountIdentifier{Address: s}\<close>) or by the helper \<^verbatim>\<open>Account(&a)\<close> from a
  20-byte address; the helper's body is outside transaction.go, so \<open>Account_helper a\<close>
  stands for its result.
\<close>

datatype account_identifier =
    AccountIdentifier string
  | Account_helper address

datatype meta_value =
    MString string
  | MStrings "string list"
  | MUint32 "32 word"
  | MBytes "8 word list"
  | MHash hash

text \<open>\<^verbatim>\<open>avax.UTXOID\<close>: the coin identifier is its rendering \<^verbatim>\<open>TxID:OutputIndex\<close>.\<close>

record utxo_id =
  utxo_TxID :: string
  utxo_OutputIndex :: "32 word"

datatype coin_action = CoinCreated | CoinSpent

record coin_change =
  CoinIdentifier :: utxo_id
  CoinAction :: coin_action

text \<open>
  \<^verbatim>\<open>types.Operation\<close>. \<open>OperationIdentifier\<close> is a pointer in Go: \<open>None\<close> is nil,
  \<open>Some i\<close> is an identifier with \<^verbatim>\<open>Index: i\<close>. \<open>RelatedOperations\<close> lists the indices
  of the related identifiers.
\<close>

record operation =
  OperationIdentifier :: "int option"
  RelatedOperations :: "int list"
  Type :: op_type
  Status :: op_status
  Account :: account_identifier
  Amount :: "amount option"
  CoinChange :: "coin_change option"
  Metadata :: "(string \<times> meta_value) list"

text \<open>
  \<^verbatim>\<open>clientTypes.FlatCall\<close>, as far as \<^verbatim>\<open>traceOps\<close> reads it. \<open>call_From\<close> and
  \<open>call_To\<close> are \<^verbatim>\<open>call.From.String()\<close> and \<^verbatim>\<open>call.To.String()\<close>.
\<close>

record flat_call =
  call_Type :: op_type
  call_From :: string
  call_To :: string
  call_Value :: int
  call_Revert :: bool
  call_Error :: string

section \<open>Go maps and their iteration order\<close>

text \<open>
  A Go map is an association list with distinct keys (\<^const>\<open>map_of\<close>,
  \<^const>\<open>AList.update\<close>, \<^const>\<open>AList.delete\<close>). The order in which \<^verbatim>\<open>range\<close> visits a map
  is chosen by the runtime and differs from run to run: every function that ranges over a
  map takes the runtime's choice as its first argument, a function that reorders the
  entries. \<open>range_order\<close> says that the choice is a legal one: it visits every entry
  once.
\<close>

definition range_order :: "('a list \<Rightarrow> 'a list) \<Rightarrow> bool" where
  "range_order visit = (\<forall>xs. distinct xs \<longrightarrow> distinct (visit xs) \<and> set (visit xs) = set xs)"

section \<open>traceOps\<close>

text \<open>\<^verbatim>\<open>ops[len(ops)-1].OperationIdentifier.Index\<close>, with the two ways it can panic.\<close>

definition lastOpIndex :: "operation list \<Rightarrow> error + int" where
  "lastOpIndex ops =
     (if ops = [] then Inl (Panic ''index out of range'')
      else case OperationIdentifier (last ops) of
             None \<Rightarrow> Inl (Panic ''nil pointer dereference'')
           | Some i \<Rightarrow> Inr i)"

text \<open>Lines 392-411: status, metadata and the two flags of a call.\<close>

definition opStatus :: "flat_call \<Rightarrow> op_status" where
  "opStatus call = (if call_Revert call then StatusFailure else StatusSuccess)"

definition callMetadata :: "flat_call \<Rightarrow> (string \<times> meta_value) list" where
  "callMetadata call = (if call_Revert call then [(''error'', MString (call_Error call))] else [])"

definition zeroValue :: "flat_call \<Rightarrow> bool" where
  "zeroValue call = (call_Value call = 0)"

definition shouldAdd :: "flat_call \<Rightarrow> bool" where
  "shouldAdd call = (\<not> (zeroValue call \<and> CallType (call_Type call)))"

text \<open>Lines 418-435: the debit of \<open>from\<close>, at index \<^verbatim>\<open>len(ops) + startIndex\<close>.\<close>

definition fromOp :: "int \<Rightarrow> operation list \<Rightarrow> flat_call \<Rightarrow> operation" where
  "fromOp startIndex ops call =
     \<lparr> OperationIdentifier = Some (int (length ops) + startIndex),
       RelatedOperations = [],
       Type = call_Type call,
       Status = opStatus call,
       Account = AccountIdentifier (call_From call),
       Amount = (if zeroValue call then None
                 else Some \<lparr> Value = - call_Value call, Currency = AvaxCurrency \<rparr>),
       CoinChange = None,
       Metadata = callMetadata call \<rparr>"

text \<open>Lines 474-496: the credit of \<open>to\<close>, linked to the last operation emitted.\<close>

definition toOp :: "int \<Rightarrow> flat_call \<Rightarrow> operation" where
  "toOp lastIdx call =
     \<lparr> OperationIdentifier = Some (lastIdx + 1),
       RelatedOperations = [lastIdx],
       Type = call_Type call,
       Status = opStatus call,
       Account = AccountIdentifier (call_To call),
       Amount = (if zeroValue call then None
                 else Some \<lparr> Value = call_Value call, Currency = AvaxCurrency \<rparr>),
       CoinChange = None,
       Metadata = callMetadata call \<rparr>"

text \<open>
  The body of the loop over the flattened calls (lines 390-505): the state is the slice
  \<open>ops\<close> and the map \<open>destroyedAccounts\<close>; a \<^verbatim>\<open>continue\<close> returns the state reached.
\<close>

definition traceCall ::
  "int \<Rightarrow> operation list \<times> (string \<times> int) list \<Rightarrow> flat_call
     \<Rightarrow> error + operation list \<times> (string \<times> int) list" where
  "traceCall startIndex st call =
     (let ops = fst st;
          destroyedAccounts = snd st;
          from = call_From call;
          to = call_To call;
          ops1 = (if shouldAdd call then ops @ [fromOp startIndex ops call] else ops);
          d1 = (if shouldAdd call \<and> \<not> zeroValue call then
                  (case map_of destroyedAccounts from of
                     Some bal \<Rightarrow>
                       if opStatus call = StatusSuccess
                       then AList.update from (bal - call_Value call) destroyedAccounts
                       else destroyedAccounts
                   | None \<Rightarrow> destroyedAccounts)
                else destroyedAccounts);
          d2 = (if call_Type call = OpSelfDestruct then AList.update from 0 d1 else d1)
      in if call_Type call = OpSelfDestruct \<and> from = to then Inr (ops1, d2)
         else if length to = 0 then Inr (ops1, d2)
         else
           let d3 = (if CreateType (call_Type call) then AList.delete to d2 else d2)
           in if shouldAdd call then
                (case lastOpIndex ops1 of
                   Inl e \<Rightarrow> Inl e
                 | Inr lastIdx \<Rightarrow>
                     let d4 = (if zeroValue call then d3
                               else case map_of d3 to of
                                      Some bal \<Rightarrow>
                                        if opStatus call = StatusSuccess
                                        then AList.update to (bal + call_Value call) d3
                                        else d3
                                    | None \<Rightarrow> d3)
                     in Inr (ops1 @ [toOp lastIdx call], d4))
              else Inr (ops1, d3))"

text \<open>The loop over the trace: the first failure ends it.\<close>

fun traceCalls ::
  "int \<Rightarrow> operation list \<times> (string \<times> int) list \<Rightarrow> flat_call list
     \<Rightarrow> error + operation list \<times> (string \<times> int) list" where
  "traceCalls startIndex st [] = Inr st"
| "traceCalls startIndex st (call # rest) =
     (case traceCall startIndex st call of
        Inl e \<Rightarrow> Inl e
      | Inr st' \<Rightarrow> traceCalls startIndex st' rest)"

text \<open>
  The loop that zeroes out the destroyed accounts (lines 509-532), over the entries in the
  order the runtime visits them. A negative balance ends the process.
\<close>

fun destructOps :: "(string \<times> int) list \<Rightarrow> operation list \<Rightarrow> error + operation list" where
  "destructOps [] ops = Inr ops"
| "destructOps ((acct, val) # rest) ops =
     (if val = 0 then destructOps rest ops
      else if val < 0 then Inl (Fatal acct val)
      else case lastOpIndex ops of
             Inl e \<Rightarrow> Inl e
           | Inr lastIdx \<Rightarrow>
               destructOps rest
                 (ops @ [\<lparr> OperationIdentifier = Some (lastIdx + 1),
                           RelatedOperations = [],
                           Type = OpDestruct,
                           Status = StatusSuccess,
                           Account = AccountIdentifier acct,
                           Amount = Some \<lparr> Value = - val, Currency = AvaxCurrency \<rparr>,
                           CoinChange = None,
                           Metadata = [] \<rparr>]))"

definition traceOps ::
  "((string \<times> int) list \<Rightarrow> (string \<times> int) list) \<Rightarrow> flat_call list \<Rightarrow> int
     \<Rightarrow> error + operation list" where
  "traceOps visit trace startIndex =
     (if length trace = 0 then Inr []
      else case traceCalls startIndex ([], []) trace of
             Inl e \<Rightarrow> Inl e
           | Inr (ops, destroyedAccounts) \<Rightarrow> destructOps (visit destroyedAccounts) ops)"

section \<open>Token-transfer logs: erc20Ops and erc721Ops\<close>

text \<open>
  \<^verbatim>\<open>ethtypes.Log\<close>. \<open>log_Address\<close> is \<^verbatim>\<open>log.Address.String()\<close>; a topic is a 32-byte
  hash; \<open>log_Data\<close> is the unsigned integer that the data field encodes.
\<close>

record log =
  log_Address :: string
  Topics :: "hash list"
  log_Data :: nat

definition topicsInErc721Transfer :: nat where
  "topicsInErc721Transfer = 4"

definition topicsInErc20Transfer :: nat where
  "topicsInErc20Transfer = 3"

text \<open>
  \<^verbatim>\<open>transferMethodHash\<close>: the code compares the hex rendering of the first topic with this
  hex string, which is the comparison of the two 256-bit values.
\<close>

definition transferMethodHash :: hash where
  "transferMethodHash = 0xddf252ad1be2c89b69c2b068fc378daa952ba7f163c4a11628f55a4df523b3ef"

definition zeroAddress :: address where
  "zeroAddress = 0"

text \<open>\<^verbatim>\<open>common.BytesToAddress(topic.Bytes())\<close> keeps the last 20 of the 32 bytes.\<close>

definition BytesToAddress :: "hash \<Rightarrow> address" where
  "BytesToAddress h = ucast h"

text \<open>
  Modelled from the spec: the helper \<^verbatim>\<open>Erc20Amount(data, currency, sender)\<close> is declared
  in another file of package mapper. The amount is decoded from the data field and signed
  by the role: negative for the sending side.
\<close>

definition Erc20Amount :: "nat \<Rightarrow> currency \<Rightarrow> bool \<Rightarrow> amount option" where
  "Erc20Amount data currency sender =
     Some \<lparr> Value = (if sender then - int data else int data), Currency = currency \<rparr>"

text \<open>
  Modelled from the spec: the metadata keys of a 721-style transfer (the emitting contract
  address and the transferred token id) are constants declared elsewhere.
\<close>

definition ContractAddressMetadata :: string where
  "ContractAddressMetadata = ''contractAddress''"

definition IndexTransferredMetadata :: string where
  "IndexTransferredMetadata = ''indexTransferred''"

text \<open>Reading \<^verbatim>\<open>Topics[1]\<close> and \<^verbatim>\<open>Topics[2]\<close> panics on a shorter slice.\<close>

definition erc20Ops :: "log \<Rightarrow> currency \<Rightarrow> int \<Rightarrow> error + operation list" where
  "erc20Ops transferLog currency opsLen =
     (if length (Topics transferLog) < 3 then Inl (Panic ''index out of range'')
      else
        let fromAddress = BytesToAddress (Topics transferLog ! 1);
            toAddress = BytesToAddress (Topics transferLog ! 2)
        in if fromAddress = zeroAddress then
             Inr [\<lparr> OperationIdentifier = Some opsLen,
                    RelatedOperations = [],
                    Type = OpErc20Mint,
                    Status = StatusSuccess,
                    Account = Account_helper toAddress,
                    Amount = Erc20Amount (log_Data transferLog) currency False,
                    CoinChange = None,
                    Metadata = [] \<rparr>]
           else if toAddress = zeroAddress then
             Inr [\<lparr> OperationIdentifier = Some opsLen,
                    RelatedOperations = [],
                    Type = OpErc20Burn,
                    Status = StatusSuccess,
                    Account = Account_helper fromAddress,
                    Amount = Erc20Amount (log_Data transferLog) currency True,
                    CoinChange = None,
                    Metadata = [] \<rparr>]
           else
             Inr [\<lparr> OperationIdentifier = Some opsLen,
                    RelatedOperations = [],
                    Type = OpErc20Transfer,
                    Status = StatusSuccess,
                    Account = Account_helper fromAddress,
                    Amount = Erc20Amount (log_Data transferLog) currency True,
                    CoinChange = None,
                    Metadata = [] \<rparr>,
                  \<lparr> OperationIdentifier = Some (opsLen + 1),
                    RelatedOperations = [opsLen],
                    Type = OpErc20Transfer,
                    Status = StatusSuccess,
                    Account = Account_helper toAddress,
                    Amount = Erc20Amount (log_Data transferLog) currency False,
                    CoinChange = None,
                    Metadata = [] \<rparr>])"

definition erc721Ops :: "log \<Rightarrow> int \<Rightarrow> error + operation list" where
  "erc721Ops transferLog opsLen =
     (if length (Topics transferLog) < 4 then Inl (Panic ''index out of range'')
      else
        let fromAddress = BytesToAddress (Topics transferLog ! 1);
            toAddress = BytesToAddress (Topics transferLog ! 2);
            metadata = [(ContractAddressMetadata, MString (log_Address transferLog)),
                        (IndexTransferredMetadata, MHash (Topics transferLog ! 3))]
        in if fromAddress = zeroAddress then
             Inr [\<lparr> OperationIdentifier = Some opsLen,
                    RelatedOperations = [],
                    Type = OpErc721Mint,
                    Status = StatusSuccess,
                    Account = Account_helper toAddress,
                    Amount = None,
                    CoinChange = None,
                    Metadata = metadata \<rparr>]
           else if toAddress = zeroAddress then
             Inr [\<lparr> OperationIdentifier = Some opsLen,
                    RelatedOperations = [],
                    Type = OpErc721Burn,
                    Status = StatusSuccess,
                    Account = Account_helper fromAddress,
                    Amount = None,
                    CoinChange = None,
                    Metadata = metadata \<rparr>]
           else
             Inr [\<lparr> OperationIdentifier = Some opsLen,
                    RelatedOperations = [],
                    Type = OpErc721TransferSender,
                    Status = StatusSuccess,
                    Account = Account_helper fromAddress,
                    Amount = None,
                    CoinChange = None,
                    Metadata = metadata \<rparr>,
                  \<lparr> OperationIdentifier = Some (opsLen + 1),
                    RelatedOperations = [opsLen],
                    Type = OpErc721TransferReceive,
                    Status = StatusSuccess,
                    Account = Account_helper toAddress,
                    Amount = None,
                    CoinChange = None,
                    Metadata = metadata \<rparr>])"

section \<open>Transaction\<close>

text \<open>
  The inputs of \<^verbatim>\<open>Transaction\<close>, as far as it reads them. The raw trace is opaque and
  only copied into the metadata. The client is its one method
  \<^verbatim>\<open>GetContractInfo(address, isErc20)\<close>, which returns a symbol and decimals, or an error.
\<close>

record header =
  Coinbase :: address

record message =
  msg_From :: address
  msg_GasPrice :: int

record receipt =
  GasUsed :: "64 word"
  Logs :: "log list"

record eth_tx =
  tx_Hash :: string
  tx_Gas :: "64 word"
  tx_GasPrice :: int
  tx_Type :: "8 word"

type_synonym client = "string \<Rightarrow> bool \<Rightarrow> error + string \<times> 8 word"

record 'trace eth_metadata =
  meta_gas :: "64 word"
  meta_gas_price :: int
  meta_receipt :: receipt
  meta_trace :: 'trace
  meta_type :: "8 word"

record 'trace transaction =
  TransactionIdentifier :: string
  Operations :: "operation list"
  TransactionMetadata :: "'trace eth_metadata"

text \<open>
  Modelled from the spec: the helper \<^verbatim>\<open>AvaxAmount\<close> (an amount record with the fixed
  whole-unit native currency), the helper \<^verbatim>\<open>EqualFoldContains\<close> (the case-insensitive
  allow-list test) and the two "unknown symbol" sentinels of the client package are
  declared elsewhere.
\<close>

definition AvaxAmount :: "int \<Rightarrow> amount option" where
  "AvaxAmount v = Some \<lparr> Value = v, Currency = AvaxCurrency \<rparr>"

definition toLower :: "char \<Rightarrow> char" where
  "toLower c =
     (let n = (of_char c :: nat)
      in if 65 \<le> n \<and> n \<le> 90 then char_of (n + 32) else c)"

definition EqualFoldContains :: "string list \<Rightarrow> string \<Rightarrow> bool" where
  "EqualFoldContains arr str = list_ex (\<lambda>a. map toLower a = map toLower str) arr"

definition UnknownERC20Symbol :: string where
  "UnknownERC20Symbol = ''ERC20_UNKNOWN''"

definition UnknownERC721Symbol :: string where
  "UnknownERC721Symbol = ''ERC721_UNKNOWN''"

text \<open>Lines 52-79: the fee and the two fee operations.\<close>

definition feeOps :: "address \<Rightarrow> address \<Rightarrow> 64 word \<Rightarrow> int \<Rightarrow> operation list" where
  "feeOps sender feeReceiver gasUsed gasPrice =
     (let txFee = uint gasUsed * gasPrice
      in [\<lparr> OperationIdentifier = Some 0,
             RelatedOperations = [],
             Type = OpFee,
             Status = StatusSuccess,
             Account = Account_helper sender,
             Amount = AvaxAmount (- txFee),
             CoinChange = None,
             Metadata = [] \<rparr>,
           \<lparr> OperationIdentifier = Some 1,
             RelatedOperations = [0],
             Type = OpFee,
             Status = StatusSuccess,
             Account = Account_helper feeReceiver,
             Amount = AvaxAmount txFee,
             CoinChange = None,
             Metadata = [] \<rparr>])"

text \<open>
  The body of the loop over the receipt's logs (lines 85-123): \<^verbatim>\<open>continue\<close> returns the
  operations unchanged, a failed lookup returns its error.
\<close>

definition logOps ::
  "client \<Rightarrow> bool \<Rightarrow> string list \<Rightarrow> bool \<Rightarrow> operation list \<Rightarrow> log
     \<Rightarrow> error + operation list" where
  "logOps client isAnalyticsMode standardModeWhiteList includeUnknownTokens ops lg =
     (if length (Topics lg) = 0 \<or> Topics lg ! 0 \<noteq> transferMethodHash then Inr ops
      else if \<not> isAnalyticsMode \<and> \<not> EqualFoldContains standardModeWhiteList (log_Address lg)
      then Inr ops
      else if length (Topics lg) = topicsInErc721Transfer then
        (case client (log_Address lg) False of
           Inl err \<Rightarrow> Inl err
         | Inr (symbol, decimals) \<Rightarrow>
             if symbol = UnknownERC721Symbol \<and> \<not> includeUnknownTokens then Inr ops
             else (case erc721Ops lg (int (length ops)) of
                     Inl e \<Rightarrow> Inl e
                   | Inr new \<Rightarrow> Inr (ops @ new)))
      else if length (Topics lg) = topicsInErc20Transfer then
        (case client (log_Address lg) True of
           Inl err \<Rightarrow> Inl err
         | Inr (symbol, decimals) \<Rightarrow>
             if symbol = UnknownERC20Symbol \<and> \<not> includeUnknownTokens then Inr ops
             else (case erc20Ops lg (ToCurrency symbol decimals (log_Address lg))
                          (int (length ops)) of
                     Inl e \<Rightarrow> Inl e
                   | Inr new \<Rightarrow> Inr (ops @ new)))
      else Inr ops)"

fun logsOps ::
  "client \<Rightarrow> bool \<Rightarrow> string list \<Rightarrow> bool \<Rightarrow> operation list \<Rightarrow> log list
     \<Rightarrow> error + operation list" where
  "logsOps client isAnalyticsMode standardModeWhiteList includeUnknownTokens ops [] = Inr ops"
| "logsOps client isAnalyticsMode standardModeWhiteList includeUnknownTokens ops (lg # rest) =
     (case logOps client isAnalyticsMode standardModeWhiteList includeUnknownTokens ops lg of
        Inl e \<Rightarrow> Inl e
      | Inr ops' \<Rightarrow>
          logsOps client isAnalyticsMode standardModeWhiteList includeUnknownTokens ops' rest)"

definition Transaction ::
  "((string \<times> int) list \<Rightarrow> (string \<times> int) list) \<Rightarrow> header \<Rightarrow> eth_tx \<Rightarrow> message \<Rightarrow> receipt
     \<Rightarrow> 'trace \<Rightarrow> flat_call list \<Rightarrow> client \<Rightarrow> bool \<Rightarrow> string list \<Rightarrow> bool
     \<Rightarrow> error + 'trace transaction" where
  "Transaction visit hdr tx msg rcpt trace flattenedTrace client isAnalyticsMode
       standardModeWhiteList includeUnknownTokens =
     (let sender = msg_From msg;
          feeReceiver = Coinbase hdr;
          fOps = feeOps sender feeReceiver (GasUsed rcpt) (msg_GasPrice msg);
          ops = [] @ fOps
      in case traceOps visit flattenedTrace (int (length fOps)) of
           Inl e \<Rightarrow> Inl e
         | Inr tOps \<Rightarrow>
             (case logsOps client isAnalyticsMode standardModeWhiteList includeUnknownTokens
                     (ops @ tOps) (Logs rcpt) of
                Inl e \<Rightarrow> Inl e
              | Inr ops' \<Rightarrow>
                  Inr \<lparr> TransactionIdentifier = tx_Hash tx,
                        Operations = ops',
                        TransactionMetadata =
                          \<lparr> meta_gas = tx_Gas tx,
                            meta_gas_price = tx_GasPrice tx,
                            meta_receipt = rcpt,
                            meta_trace = trace,
                            meta_type = tx_Type tx \<rparr> \<rparr>))"

section \<open>Atomic transactions: crossChainTransaction and createExportedOuts\<close>

text \<open>
  The atomic transactions of \<^verbatim>\<open>coreth/plugin/evm\<close>, as far as the mapper reads them.
  Ids, chains and addresses are their \<^verbatim>\<open>String()\<close> / \<^verbatim>\<open>Hex()\<close> renderings; amounts are
  \<^verbatim>\<open>uint64\<close>.
\<close>

record imported_input =
  in_TxID :: string
  in_AssetID :: string
  in_Amount :: "64 word"

record evm_output =
  out_Address :: string
  out_Amount :: "64 word"
  out_AssetID :: string

record evm_input =
  ein_Address :: string
  ein_Amount :: "64 word"
  ein_AssetID :: string

text \<open>
  \<^verbatim>\<open>out.Output()\<close> of an exported output is an interface value: a
  \<^verbatim>\<open>*secp256k1fx.TransferOutput\<close> with its amount and addresses, or some other output type
  (on which the unchecked type assertion of line 293 panics).
\<close>

datatype transferable_out =
    TransferOutput "64 word" "address list"
  | OtherOutput "64 word"

record transferable_output =
  tout_AssetID :: string
  tout_Out :: transferable_out

record unsigned_import_tx =
  imp_ID :: string
  imp_NetworkID :: "32 word"
  imp_BlockchainID :: string
  imp_SourceChain :: string
  imp_Metadata :: "8 word list"
  ImportedInputs :: "imported_input list"
  Outs :: "evm_output list"

text \<open>\<open>ExportedOutputs\<close> is a slice: \<open>None\<close> is the nil slice.\<close>

record unsigned_export_tx =
  exp_ID :: string
  exp_NetworkID :: "32 word"
  exp_BlockchainID :: string
  exp_DestinationChain :: string
  exp_Metadata :: "8 word list"
  Ins :: "evm_input list"
  ExportedOutputs :: "transferable_output list option"

datatype unsigned_atomic_tx =
    UnsignedImportTx unsigned_import_tx
  | UnsignedExportTx unsigned_export_tx
  | OtherAtomicTx string

text \<open>\<open>Sign_error\<close> is what \<^verbatim>\<open>tx.Sign(evm.Codec, nil)\<close> returns: \<open>None\<close> is nil.\<close>

record evm_tx =
  Sign_error :: "error option"
  UnsignedAtomicTx :: unsigned_atomic_tx

record network_identifier =
  Blockchain :: string
  Network :: string

text \<open>
  The metadata map of an atomic transaction has at most the two keys
  \<^verbatim>\<open>MetadataExportedOutputs\<close> and \<^verbatim>\<open>MetadataTxFee\<close>; \<open>None\<close> is an absent key.
\<close>

record atomic_metadata =
  MetadataExportedOutputs :: "operation list option"
  MetadataTxFee :: "amount option"

definition X2crate :: int where
  "X2crate = 1000000000"

text \<open>
  Modelled from the spec: the helper \<^verbatim>\<open>AtomicAvaxAmount\<close> (an amount record with the fixed
  atomic-unit native currency) is declared elsewhere.
\<close>

definition AtomicAvaxAmount :: "int \<Rightarrow> amount option" where
  "AtomicAvaxAmount v = Some \<lparr> Value = v, Currency = AtomicAvaxCurrency \<rparr>"

text \<open>
  The loop of \<^verbatim>\<open>createExportedOuts\<close> (lines 291-322). \<open>Format\<close> is
  \<^verbatim>\<open>address.Format\<close> of avalanchego, taken as a parameter; \<open>outIndex\<close> is the loop's
  index, narrowed to \<^verbatim>\<open>uint32\<close> in the UTXO id.
\<close>

fun exportedOutsLoop ::
  "(string \<Rightarrow> string \<Rightarrow> address \<Rightarrow> error + string) \<Rightarrow> string \<Rightarrow> string \<Rightarrow> string \<Rightarrow> nat
     \<Rightarrow> transferable_output list \<Rightarrow> operation list \<times> int \<Rightarrow> error + operation list \<times> int" where
  "exportedOutsLoop Format chainAlias hrp txID outIndex [] acc = Inr acc"
| "exportedOutsLoop Format chainAlias hrp txID outIndex (out # rest) (operations, totalAmount) =
     (case tout_Out out of
        OtherOutput amt \<Rightarrow> Inl (Panic ''interface conversion'')
      | TransferOutput amt addrs \<Rightarrow>
          (case (if length addrs > 0 then Format chainAlias hrp (addrs ! 0) else Inr []) of
             Inl err \<Rightarrow> Inl err
           | Inr addr \<Rightarrow>
               exportedOutsLoop Format chainAlias hrp txID (Suc outIndex) rest
                 (operations @
                    [\<lparr> OperationIdentifier = None,
                       RelatedOperations = [],
                       Type = OpExport,
                       Status = StatusSuccess,
                       Account = AccountIdentifier addr,
                       Amount = Some \<lparr> Value = uint amt, Currency = AtomicAvaxCurrency \<rparr>,
                       CoinChange =
                         Some \<lparr> CoinIdentifier =
                                  \<lparr> utxo_TxID = txID, utxo_OutputIndex = of_nat outIndex \<rparr>,
                                CoinAction = CoinCreated \<rparr>,
                       Metadata = [] \<rparr>],
                  totalAmount + uint amt)))"

text \<open>\<open>GetHRP\<close> is the helper of package mapper, declared elsewhere and taken as a parameter.\<close>

definition createExportedOuts ::
  "(network_identifier \<Rightarrow> error + string) \<Rightarrow> (string \<Rightarrow> string \<Rightarrow> address \<Rightarrow> error + string)
     \<Rightarrow> network_identifier \<Rightarrow> string \<Rightarrow> string \<Rightarrow> transferable_output list
     \<Rightarrow> error + operation list \<times> int" where
  "createExportedOuts GetHRP Format networkIdentifier chainAlias txID exportedOuts =
     (case GetHRP networkIdentifier of
        Inl err \<Rightarrow> Inl err
      | Inr hrp \<Rightarrow> exportedOutsLoop Format chainAlias hrp txID 0 exportedOuts ([], 0))"

text \<open>
  The local variables of \<^verbatim>\<open>crossChainTransaction\<close> that its loops update.
  \<open>exportedSet\<close> says whether \<^verbatim>\<open>metadata[MetadataExportedOutputs]\<close> has been assigned (it
  then holds the slice \<open>exportedOuts\<close>, whose elements are shared pointers).
\<close>

record atomic_state =
  st_ops :: "operation list"
  st_exportedOuts :: "operation list"
  st_idx :: int
  st_exportedSet :: bool
  st_totalInputAmount :: int
  st_totalOutputAmount :: int

text \<open>
  Lines 166-170: the map of source transaction ids and the running input total. The
  amount goes through \<^verbatim>\<open>int64\<close> on its way into the total.
\<close>

fun importedInputsLoop ::
  "imported_input list \<Rightarrow> (string \<times> unit) list \<times> int \<Rightarrow> (string \<times> unit) list \<times> int" where
  "importedInputsLoop [] acc = acc"
| "importedInputsLoop (i # rest) (mTxIDs, inputTotal) =
     importedInputsLoop rest (AList.update (in_TxID i) () mTxIDs, inputTotal + sint (in_Amount i))"

text \<open>Lines 178-211: one import operation per output of the native asset.\<close>

fun importOutsLoop ::
  "string \<Rightarrow> unsigned_import_tx \<Rightarrow> string list \<Rightarrow> evm_output list \<Rightarrow> atomic_state
     \<Rightarrow> atomic_state" where
  "importOutsLoop avaxAssetID t txIDs [] st = st"
| "importOutsLoop avaxAssetID t txIDs (out # rest) st =
     (if out_AssetID out \<noteq> avaxAssetID then importOutsLoop avaxAssetID t txIDs rest st
      else
        let outAmount = uint (out_Amount out);
            op = \<lparr> OperationIdentifier = Some (st_idx st),
                   RelatedOperations = [],
                   Type = OpImport,
                   Status = StatusSuccess,
                   Account = AccountIdentifier (out_Address out),
                   Amount = Some \<lparr> Value = uint (out_Amount out) * X2crate,
                                   Currency = AvaxCurrency \<rparr>,
                   CoinChange = None,
                   Metadata = [(''tx'', MString (imp_ID t)),
                               (''tx_ids'', MStrings txIDs),
                               (''blockchain_id'', MString (imp_BlockchainID t)),
                               (''network_id'', MUint32 (imp_NetworkID t)),
                               (''source_chain'', MString (imp_SourceChain t)),
                               (''meta'', MBytes (imp_Metadata t)),
                               (''asset_id'', MString (out_AssetID out))] \<rparr>
        in importOutsLoop avaxAssetID t txIDs rest
             (st\<lparr> st_totalOutputAmount := st_totalOutputAmount st + outAmount,
                  st_ops := st_ops st @ [op],
                  st_idx := st_idx st + 1 \<rparr>))"

text \<open>
  Lines 213-257: one export operation per input of the native asset and, inside the same
  iteration, the exported outputs when the destination chain has an alias.
\<close>

fun exportInsLoop ::
  "(network_identifier \<Rightarrow> error + string) \<Rightarrow> (string \<Rightarrow> string \<Rightarrow> address \<Rightarrow> error + string)
     \<Rightarrow> network_identifier \<Rightarrow> (string \<Rightarrow> string option) \<Rightarrow> string \<Rightarrow> unsigned_export_tx
     \<Rightarrow> evm_input list \<Rightarrow> atomic_state \<Rightarrow> error + atomic_state" where
  "exportInsLoop GetHRP Format networkIdentifier chainIDToAliasMapping avaxAssetID t [] st =
     Inr st"
| "exportInsLoop GetHRP Format networkIdentifier chainIDToAliasMapping avaxAssetID t
       (inp # rest) st =
     (if ein_AssetID inp \<noteq> avaxAssetID
      then exportInsLoop GetHRP Format networkIdentifier chainIDToAliasMapping avaxAssetID t
             rest st
      else
        let inAmount = uint (ein_Amount inp);
            op = \<lparr> OperationIdentifier = Some (st_idx st),
                   RelatedOperations = [],
                   Type = OpExport,
                   Status = StatusSuccess,
                   Account = AccountIdentifier (ein_Address inp),
                   Amount = Some \<lparr> Value = inAmount * (- X2crate), Currency = AvaxCurrency \<rparr>,
                   CoinChange = None,
                   Metadata = [(''tx'', MString (exp_ID t)),
                               (''blockchain_id'', MString (exp_BlockchainID t)),
                               (''network_id'', MUint32 (exp_NetworkID t)),
                               (''destination_chain'', MString (exp_DestinationChain t)),
                               (''meta'', MBytes (exp_Metadata t)),
                               (''asset_id'', MString (ein_AssetID inp))] \<rparr>;
            st1 = st\<lparr> st_totalInputAmount := st_totalInputAmount st + inAmount,
                      st_ops := st_ops st @ [op],
                      st_idx := st_idx st + 1 \<rparr>
        in case (chainIDToAliasMapping (exp_DestinationChain t), ExportedOutputs t) of
             (Some alias, Some outs) \<Rightarrow>
               (case createExportedOuts GetHRP Format networkIdentifier alias (exp_ID t) outs of
                  Inl err \<Rightarrow> Inl err
                | Inr (operations, totalExportedAmount) \<Rightarrow>
                    exportInsLoop GetHRP Format networkIdentifier chainIDToAliasMapping
                      avaxAssetID t rest
                      (st1\<lparr> st_exportedOuts := st_exportedOuts st1 @ operations,
                            st_exportedSet := True,
                            st_totalOutputAmount := st_totalOutputAmount st1 + totalExportedAmount \<rparr>))
           | _ \<Rightarrow>
               exportInsLoop GetHRP Format networkIdentifier chainIDToAliasMapping avaxAssetID t
                 rest st1)"

text \<open>Lines 265-269: the deferred identifiers of the exported outputs.\<close>

fun assignIndices :: "int \<Rightarrow> operation list \<Rightarrow> operation list" where
  "assignIndices i [] = []"
| "assignIndices i (exportedOut # rest) =
     exportedOut\<lparr> OperationIdentifier := Some i \<rparr> # assignIndices (i + 1) rest"

text \<open>Lines 262-275: what both branches fall through to.\<close>

definition finishAtomic :: "atomic_state \<Rightarrow> operation list \<times> atomic_metadata" where
  "finishAtomic st =
     (let indexed = assignIndices (st_idx st) (st_exportedOuts st);
          txFeeAtomicAvax = st_totalInputAmount st - st_totalOutputAmount st
      in (st_ops st,
          \<lparr> MetadataExportedOutputs = (if st_exportedSet st then Some indexed else None),
            MetadataTxFee = AtomicAvaxAmount txFeeAtomicAvax \<rparr>))"

definition initialState :: "int \<Rightarrow> atomic_state" where
  "initialState rawIdx =
     \<lparr> st_ops = [], st_exportedOuts = [], st_idx = rawIdx, st_exportedSet = False,
       st_totalInputAmount = 0, st_totalOutputAmount = 0 \<rparr>"

text \<open>
  \<open>visit\<close> is the order in which the runtime ranges over the map of source transaction
  ids (lines 173-176).
\<close>

definition crossChainTransaction ::
  "((string \<times> unit) list \<Rightarrow> (string \<times> unit) list)
     \<Rightarrow> (network_identifier \<Rightarrow> error + string) \<Rightarrow> (string \<Rightarrow> string \<Rightarrow> address \<Rightarrow> error + string)
     \<Rightarrow> network_identifier \<Rightarrow> (string \<Rightarrow> string option) \<Rightarrow> int \<Rightarrow> string \<Rightarrow> evm_tx
     \<Rightarrow> error + operation list \<times> atomic_metadata" where
  "crossChainTransaction visit GetHRP Format networkIdentifier chainIDToAliasMapping rawIdx
       avaxAssetID tx =
     (case Sign_error tx of
        Some err \<Rightarrow> Inl err
      | None \<Rightarrow>
          (case UnsignedAtomicTx tx of
             UnsignedImportTx t \<Rightarrow>
               (let (mTxIDs, inputTotal) = importedInputsLoop (ImportedInputs t) ([], 0);
                    txIDs = map fst (visit mTxIDs)
                in Inr (finishAtomic
                          (importOutsLoop avaxAssetID t txIDs (Outs t)
                             ((initialState rawIdx)\<lparr> st_totalInputAmount := inputTotal \<rparr>))))
           | UnsignedExportTx t \<Rightarrow>
               (case exportInsLoop GetHRP Format networkIdentifier chainIDToAliasMapping
                       avaxAssetID t (Ins t) (initialState rawIdx) of
                  Inl err \<Rightarrow> Inl err
                | Inr st \<Rightarrow> Inr (finishAtomic st))
           | OtherAtomicTx name \<Rightarrow> Inl (Returned (''unsupported transaction: '' @ name))))"

section \<open>Vocabulary of the properties\<close>

text \<open>
  The operations \<open>ops\<close> carry the identifiers \<open>s, s + 1, ..., s + length ops - 1\<close>, in
  this order: none is nil, none is skipped, none is repeated.
\<close>

definition sequentialFrom :: "int \<Rightarrow> operation list \<Rightarrow> bool" where
  "sequentialFrom s ops =
     (map OperationIdentifier ops = map (\<lambda>i. Some (s + int i)) [0..<length ops])"

text \<open>
  Every operation of the list that names related operations names exactly one, the
  identifier of the operation emitted immediately before it, and that operation names
  none itself. \<open>prev\<close> is the operation emitted before the list, if any.
\<close>

fun linkedToPrevious :: "operation option \<Rightarrow> operation list \<Rightarrow> bool" where
  "linkedToPrevious prev [] = True"
| "linkedToPrevious prev (x # xs) =
     ((RelatedOperations x = [] \<or>
       (case prev of
          None \<Rightarrow> False
        | Some p \<Rightarrow>
            (case OperationIdentifier p of
               None \<Rightarrow> False
             | Some j \<Rightarrow> RelatedOperations p = [] \<and> RelatedOperations x = [j]))) \<and>
      linkedToPrevious (Some x) xs)"

text \<open>
  A call that \<open>traceOps\<close> skips: a value-transfer call kind with value zero.
\<close>

definition skippedCall :: "flat_call \<Rightarrow> bool" where
  "skippedCall c = (CallType (call_Type c) \<and> call_Value c = 0)"

text \<open>An operation with an amount that is present and not zero.\<close>

definition movesValue :: "operation \<Rightarrow> bool" where
  "movesValue op = (case Amount op of None \<Rightarrow> False | Some a \<Rightarrow> Value a \<noteq> 0)"

text \<open>
  A qualifying transfer log: it passes the signature gate and the allow-list gate of
  lines 87-94 and has three or four topics, so that \<open>Transaction\<close> looks up the contract
  metadata for it, by the call \<open>contractInfo\<close>. \<open>lookupFails\<close>: the log qualifies and its
  lookup returns an error.
\<close>

definition qualifyingLog :: "bool \<Rightarrow> string list \<Rightarrow> log \<Rightarrow> bool" where
  "qualifyingLog isAnalyticsMode standardModeWhiteList lg =
     (length (Topics lg) \<noteq> 0 \<and> Topics lg ! 0 = transferMethodHash \<and>
      (isAnalyticsMode \<or> EqualFoldContains standardModeWhiteList (log_Address lg)) \<and>
      (length (Topics lg) = topicsInErc721Transfer \<or>
       length (Topics lg) = topicsInErc20Transfer))"

definition contractInfo :: "client \<Rightarrow> log \<Rightarrow> error + string \<times> 8 word" where
  "contractInfo client lg =
     client (log_Address lg) (length (Topics lg) = topicsInErc20Transfer)"

definition lookupFails :: "client \<Rightarrow> bool \<Rightarrow> string list \<Rightarrow> log \<Rightarrow> bool" where
  "lookupFails client isAnalyticsMode standardModeWhiteList lg =
     (qualifyingLog isAnalyticsMode standardModeWhiteList lg \<and> isl (contractInfo client lg))"

text \<open>
  \<^verbatim>\<open>out.Out.Amount()\<close> of an exported output, and the sum of these amounts over the
  exported outputs of an export transaction, whatever their asset: the outputs count when
  the destination chain has an alias and the slice is not nil (the test of line 247),
  and not otherwise. \<open>exportedCount\<close> is their number under the same test.
\<close>

fun outAmount :: "transferable_out \<Rightarrow> 64 word" where
  "outAmount (TransferOutput amt addrs) = amt"
| "outAmount (OtherOutput amt) = amt"

definition exportedTotal :: "(string \<Rightarrow> string option) \<Rightarrow> unsigned_export_tx \<Rightarrow> int" where
  "exportedTotal chainIDToAliasMapping t =
     (case (chainIDToAliasMapping (exp_DestinationChain t), ExportedOutputs t) of
        (Some chainAlias, Some outs) \<Rightarrow> (\<Sum>out\<leftarrow>outs. uint (outAmount (tout_Out out)))
      | _ \<Rightarrow> 0)"

definition exportedCount :: "(string \<Rightarrow> string option) \<Rightarrow> unsigned_export_tx \<Rightarrow> nat" where
  "exportedCount chainIDToAliasMapping t =
     (case (chainIDToAliasMapping (exp_DestinationChain t), ExportedOutputs t) of
        (Some chainAlias, Some outs) \<Rightarrow> length outs
      | _ \<Rightarrow> 0)"

text \<open>
  The list \<open>txIDs\<close> of lines 171-176: the keys of the map of source transaction ids, in
  the order \<open>visit\<close> in which the runtime ranges over the map.
\<close>

definition txIDsOf ::
  "((string \<times> unit) list \<Rightarrow> (string \<times> unit) list) \<Rightarrow> imported_input list \<Rightarrow> string list" where
  "txIDsOf visit ins = map fst (visit (fst (importedInputsLoop ins ([], 0))))"

section \<open>Example inputs\<close>

text \<open>
  An ordinary transaction: gas used 21000 at gas price 25, one internal call of value 100,
  a 20-style and a 721-style transfer log, and a client that knows both tokens.
\<close>

definition exHeader :: header where
  "exHeader = \<lparr> Coinbase = 0xC0 \<rparr>"

definition exMessage :: message where
  "exMessage = \<lparr> msg_From = 0xA1, msg_GasPrice = 25 \<rparr>"

definition exTx :: eth_tx where
  "exTx = \<lparr> tx_Hash = ''0x01'', tx_Gas = 21000, tx_GasPrice = 25, tx_Type = 0 \<rparr>"

definition exLog20 :: log where
  "exLog20 =
     \<lparr> log_Address = ''0x70'',
       Topics = [0xddf252ad1be2c89b69c2b068fc378daa952ba7f163c4a11628f55a4df523b3ef,
                 0xA1, 0xB2],
       log_Data = 7 \<rparr>"

definition exLog721 :: log where
  "exLog721 =
     \<lparr> log_Address = ''0x71'',
       Topics = [0xddf252ad1be2c89b69c2b068fc378daa952ba7f163c4a11628f55a4df523b3ef,
                 0xB2, 0xA1, 42],
       log_Data = 0 \<rparr>"

definition exReceipt :: receipt where
  "exReceipt = \<lparr> GasUsed = 21000, Logs = [exLog20, exLog721] \<rparr>"

definition exCall :: flat_call where
  "exCall = \<lparr> call_Type = OpCall, call_From = ''0xA1'', call_To = ''0xB2'',
              call_Value = 100, call_Revert = False, call_Error = [] \<rparr>"

definition exTrace :: "flat_call list" where
  "exTrace = [exCall]"

definition exClient :: client where
  "exClient a isErc20 = Inr (''TOK'', 18)"

text \<open>A zero-value static call, and a client whose 721-style lookups fail.\<close>

definition exZeroCall :: flat_call where
  "exZeroCall = \<lparr> call_Type = OpStaticCall, call_From = ''0xB2'', call_To = ''0xA1'',
                  call_Value = 0, call_Revert = False, call_Error = [] \<rparr>"

definition exFailingClient :: client where
  "exFailingClient a isErc20 =
     (if isErc20 then Inr (''TOK'', 18) else Inl (Returned ''execution reverted''))"

text \<open>
  Atomic transactions on a network whose prefix is known, with an alias for the chain
  \<open>chainP\<close>; the native asset is \<open>AVAX\<close>. \<open>signed t\<close> is a transaction whose
  \<^verbatim>\<open>Sign\<close> succeeds.
\<close>

definition exNet :: network_identifier where
  "exNet = \<lparr> Blockchain = ''Avalanche'', Network = ''Fuji'' \<rparr>"

definition exGetHRP :: "network_identifier \<Rightarrow> error + string" where
  "exGetHRP n = (if Network n = ''Fuji'' then Inr ''fuji'' else Inl (Returned ''unknown network''))"

definition exFormat :: "string \<Rightarrow> string \<Rightarrow> address \<Rightarrow> error + string" where
  "exFormat chainAlias hrp a = Inr (chainAlias @ ''-'' @ hrp @ ''1'')"

definition exAliases :: "string \<Rightarrow> string option" where
  "exAliases = [''chainP'' \<mapsto> ''P'']"

definition exImport :: unsigned_import_tx where
  "exImport =
     \<lparr> imp_ID = ''tx1'', imp_NetworkID = 5, imp_BlockchainID = ''C'', imp_SourceChain = ''X'',
       imp_Metadata = [],
       ImportedInputs =
         [\<lparr> in_TxID = ''a'', in_AssetID = ''AVAX'', in_Amount = 7 \<rparr>,
          \<lparr> in_TxID = ''b'', in_AssetID = ''AVAX'', in_Amount = 5 \<rparr>,
          \<lparr> in_TxID = ''a'', in_AssetID = ''AVAX'', in_Amount = 1 \<rparr>],
       Outs =
         [\<lparr> out_Address = ''0x01'', out_Amount = 6, out_AssetID = ''AVAX'' \<rparr>,
          \<lparr> out_Address = ''0x01'', out_Amount = 4, out_AssetID = ''OTHER'' \<rparr>] \<rparr>"

definition exImportPermuted :: unsigned_import_tx where
  "exImportPermuted =
     exImport \<lparr> ImportedInputs :=
         [\<lparr> in_TxID = ''b'', in_AssetID = ''AVAX'', in_Amount = 5 \<rparr>,
          \<lparr> in_TxID = ''a'', in_AssetID = ''AVAX'', in_Amount = 1 \<rparr>,
          \<lparr> in_TxID = ''a'', in_AssetID = ''AVAX'', in_Amount = 7 \<rparr>] \<rparr>"

definition exImportOther :: unsigned_import_tx where
  "exImportOther =
     exImport \<lparr> ImportedInputs := [\<lparr> in_TxID = ''a'', in_AssetID = ''OTHER'', in_Amount = 5 \<rparr>],
                Outs := [] \<rparr>"

definition exImportHuge :: unsigned_import_tx where
  "exImportHuge =
     exImport \<lparr> ImportedInputs :=
                  [\<lparr> in_TxID = ''a'', in_AssetID = ''AVAX'', in_Amount = 9223372036854775808 \<rparr>],
                Outs := [] \<rparr>"

definition exExport :: unsigned_export_tx where
  "exExport =
     \<lparr> exp_ID = ''tx2'', exp_NetworkID = 5, exp_BlockchainID = ''C'',
       exp_DestinationChain = ''chainP'', exp_Metadata = [],
       Ins = [\<lparr> ein_Address = ''0x01'', ein_Amount = 30, ein_AssetID = ''AVAX'' \<rparr>,
              \<lparr> ein_Address = ''0x02'', ein_Amount = 9, ein_AssetID = ''OTHER'' \<rparr>],
       ExportedOutputs = Some [\<lparr> tout_AssetID = ''AVAX'', tout_Out = TransferOutput 25 [1] \<rparr>] \<rparr>"

definition exExportOther :: unsigned_export_tx where
  "exExportOther =
     exExport \<lparr> ExportedOutputs :=
                  Some [\<lparr> tout_AssetID = ''OTHER'', tout_Out = TransferOutput 4 [1] \<rparr>] \<rparr>"

definition exExportNoAlias :: unsigned_export_tx where
  "exExportNoAlias = exExport \<lparr> exp_DestinationChain := ''chainQ'' \<rparr>"

definition exExportTwo :: unsigned_export_tx where
  "exExportTwo =
     exExport \<lparr> Ins := [\<lparr> ein_Address = ''0x01'', ein_Amount = 10, ein_AssetID = ''AVAX'' \<rparr>,
                        \<lparr> ein_Address = ''0x02'', ein_Amount = 20, ein_AssetID = ''AVAX'' \<rparr>] \<rparr>"

definition signed :: "unsigned_atomic_tx \<Rightarrow> evm_tx" where
  "signed t = \<lparr> Sign_error = None, UnsignedAtomicTx = t \<rparr>"

section \<open>Legal iteration orders\<close>

lemma range_order_id: "range_order id"
  by (simp add: range_order_def)

lemma range_order_rev: "range_order rev"
  by (simp add: range_order_def)

lemma range_order_distinct: "range_order visit \<Longrightarrow> distinct xs \<Longrightarrow> distinct (visit xs)"
  by (simp add: range_order_def)

lemma range_order_set: "range_order visit \<Longrightarrow> distinct xs \<Longrightarrow> set (visit xs) = set xs"
  by (simp add: range_order_def)

lemma range_order_single:
  assumes "range_order visit"
  shows "visit [x] = [x]"
proof -
  have d: "distinct (visit [x])" and s: "set (visit [x]) = {x}"
    using assms range_order_distinct [of visit "[x]"] range_order_set [of visit "[x]"]
    by simp_all
  from s obtain y ys where v: "visit [x] = y # ys"
    by (cases "visit [x]") auto
  with s have y: "y = x" by auto
  from v d s y have "ys = []"
    by (cases ys) auto
  with v y show ?thesis by simp
qed

section \<open>Operation indices are sequential\<close>

lemma sequentialFrom_Nil: "sequentialFrom s []"
  by (simp add: sequentialFrom_def)

lemma sequentialFrom_snoc:
  "sequentialFrom s ops \<Longrightarrow> OperationIdentifier x = Some (s + int (length ops))
     \<Longrightarrow> sequentialFrom s (ops @ [x])"
  by (simp add: sequentialFrom_def)

lemma sequentialFrom_append:
  assumes "sequentialFrom s xs" and "sequentialFrom (s + int (length xs)) ys"
  shows "sequentialFrom s (xs @ ys)"
  using assms(2)
proof (induction ys rule: rev_induct)
  case Nil
  then show ?case using assms(1) by simp
next
  case (snoc y ys)
  from snoc.prems have a: "sequentialFrom (s + int (length xs)) ys"
    and b: "OperationIdentifier y = Some (s + int (length xs) + int (length ys))"
    by (simp_all add: sequentialFrom_def)
  from snoc.IH [OF a] b show ?case
    using sequentialFrom_snoc [of s "xs @ ys" y] by (simp add: add.assoc)
qed

lemma lastOpIndex_snoc:
  "lastOpIndex (ops @ [x]) =
     (case OperationIdentifier x of
        None \<Rightarrow> Inl (Panic ''nil pointer dereference'')
      | Some i \<Rightarrow> Inr i)"
  by (simp add: lastOpIndex_def)

lemma lastOpIndex_sequential:
  "sequentialFrom s ops \<Longrightarrow> ops \<noteq> [] \<Longrightarrow> lastOpIndex ops = Inr (s + int (length ops) - 1)"
proof (induction ops rule: rev_induct)
  case Nil
  then show ?case by simp
next
  case (snoc x xs)
  then have "OperationIdentifier x = Some (s + int (length xs))"
    by (simp add: sequentialFrom_def)
  then show ?case by (simp add: lastOpIndex_snoc)
qed

lemma traceCall_ops:
  "\<exists>d'. traceCall s (ops, d) c =
     Inr (if \<not> shouldAdd c then ops
          else if (call_Type c = OpSelfDestruct \<and> call_From c = call_To c) \<or> call_To c = []
          then ops @ [fromOp s ops c]
          else ops @ [fromOp s ops c, toOp (int (length ops) + s) c], d')"
  by (simp add: traceCall_def Let_def lastOpIndex_snoc fromOp_def)

lemma traceCall_sequential:
  assumes "sequentialFrom s ops" and "traceCall s (ops, d) c = Inr (ops', d')"
  shows "sequentialFrom s ops'"
proof -
  from traceCall_ops [of s ops d c] assms(2)
  have "ops' = (if \<not> shouldAdd c then ops
          else if (call_Type c = OpSelfDestruct \<and> call_From c = call_To c) \<or> call_To c = []
          then ops @ [fromOp s ops c]
          else ops @ [fromOp s ops c, toOp (int (length ops) + s) c])"
    by auto
  moreover have "sequentialFrom s (ops @ [fromOp s ops c])"
    using assms(1) by (simp add: sequentialFrom_snoc fromOp_def)
  moreover have "sequentialFrom s (ops @ [fromOp s ops c, toOp (int (length ops) + s) c])"
    using assms(1) sequentialFrom_snoc [of s "ops @ [fromOp s ops c]" "toOp (int (length ops) + s) c"]
    by (simp add: sequentialFrom_snoc fromOp_def toOp_def)
  ultimately show ?thesis using assms(1) by simp
qed

lemma traceCalls_sequential:
  "sequentialFrom s ops \<Longrightarrow> traceCalls s (ops, d) cs = Inr (ops', d') \<Longrightarrow> sequentialFrom s ops'"
proof (induction cs arbitrary: ops d)
  case Nil
  then show ?case by simp
next
  case (Cons c cs)
  from Cons.prems(2) obtain ops1 d1 where
    1: "traceCall s (ops, d) c = Inr (ops1, d1)" and 2: "traceCalls s (ops1, d1) cs = Inr (ops', d')"
    by (auto split: sum.splits)
  from traceCall_sequential [OF Cons.prems(1) 1] Cons.IH 2 show ?case by blast
qed

lemma destructOps_sequential:
  "sequentialFrom s ops \<Longrightarrow> destructOps entries ops = Inr ops' \<Longrightarrow> sequentialFrom s ops'"
proof (induction entries ops rule: destructOps.induct)
  case (1 ops)
  then show ?case by simp
next
  case (2 acct val rest ops)
  show ?case
  proof (cases "val = 0")
    case True
    with 2 show ?thesis by simp
  next
    case False
    with "2.prems"(2) have pos: "\<not> val < 0" by (auto split: if_splits)
    from False pos "2.prems"(2) obtain lastIdx where l: "lastOpIndex ops = Inr lastIdx"
      by (auto split: sum.splits)
    then have ne: "ops \<noteq> []" by (auto simp: lastOpIndex_def)
    from lastOpIndex_sequential [OF "2.prems"(1) ne] l
    have li: "lastIdx = s + int (length ops) - 1" by simp
    let ?op = "\<lparr> OperationIdentifier = Some (lastIdx + 1),
                           RelatedOperations = [],
                           Type = OpDestruct,
                           Status = StatusSuccess,
                           Account = AccountIdentifier acct,
                           Amount = Some \<lparr> Value = - val, Currency = AvaxCurrency \<rparr>,
                           CoinChange = None,
                           Metadata = [] \<rparr>"
    have seq: "sequentialFrom s (ops @ [?op])"
      using "2.prems"(1) li by (simp add: sequentialFrom_snoc)
    from False pos l "2.prems"(2) have "destructOps rest (ops @ [?op]) = Inr ops'"
      by simp
    from "2.IH"(2) [OF False pos l seq this] show ?thesis .
  qed
qed

lemma traceOps_sequential:
  assumes "traceOps visit trace s = Inr result"
  shows "sequentialFrom s result"
proof (cases "length trace = 0")
  case True
  with assms show ?thesis by (simp add: traceOps_def sequentialFrom_Nil)
next
  case False
  with assms obtain ops d where
    1: "traceCalls s ([], []) trace = Inr (ops, d)" and 2: "destructOps (visit d) ops = Inr result"
    by (auto simp: traceOps_def split: sum.splits)
  from traceCalls_sequential [OF sequentialFrom_Nil 1] have "sequentialFrom s ops" .
  from destructOps_sequential [OF this 2] show ?thesis .
qed


lemma erc20Ops_sequential: "erc20Ops lg cur n = Inr new \<Longrightarrow> sequentialFrom n new"
  by (auto simp: erc20Ops_def sequentialFrom_def Let_def split: if_splits)

lemma erc721Ops_sequential: "erc721Ops lg n = Inr new \<Longrightarrow> sequentialFrom n new"
  by (auto simp: erc721Ops_def sequentialFrom_def Let_def split: if_splits)

lemma logOps_cases:
  assumes "logOps client am wl iut ops lg = Inr ops'"
  shows "ops' = ops \<or> (\<exists>new. ops' = ops @ new \<and>
           (erc721Ops lg (int (length ops)) = Inr new \<or>
            (\<exists>cur. erc20Ops lg cur (int (length ops)) = Inr new)))"
  using assms
  by (auto simp: logOps_def split: if_splits sum.splits prod.splits)

lemma logOps_sequential:
  assumes "sequentialFrom 0 ops" and "logOps client am wl iut ops lg = Inr ops'"
  shows "sequentialFrom 0 ops'"
proof -
  from logOps_cases [OF assms(2)] show ?thesis
  proof
    assume "ops' = ops"
    with assms(1) show ?thesis by simp
  next
    assume "\<exists>new. ops' = ops @ new \<and>
           (erc721Ops lg (int (length ops)) = Inr new \<or>
            (\<exists>cur. erc20Ops lg cur (int (length ops)) = Inr new))"
    then obtain new where n: "ops' = ops @ new"
      and e: "erc721Ops lg (int (length ops)) = Inr new \<or>
            (\<exists>cur. erc20Ops lg cur (int (length ops)) = Inr new)" by blast
    from e have "sequentialFrom (int (length ops)) new"
      using erc20Ops_sequential erc721Ops_sequential by blast
    with assms(1) n show ?thesis
      using sequentialFrom_append [of 0 ops new] by simp
  qed
qed

lemma logsOps_sequential:
  "sequentialFrom 0 ops \<Longrightarrow> logsOps client am wl iut ops lgs = Inr ops' \<Longrightarrow> sequentialFrom 0 ops'"
proof (induction lgs arbitrary: ops)
  case Nil
  then show ?case by simp
next
  case (Cons lg lgs)
  from Cons.prems(2) obtain ops1 where
    1: "logOps client am wl iut ops lg = Inr ops1" and 2: "logsOps client am wl iut ops1 lgs = Inr ops'"
    by (auto split: sum.splits)
  from logOps_sequential [OF Cons.prems(1) 1] Cons.IH 2 show ?case by blast
qed

lemma feeOps_sequential: "sequentialFrom 0 (feeOps a b g p)"
  by (simp add: feeOps_def sequentialFrom_def Let_def)

lemma length_feeOps: "length (feeOps a b g p) = 2"
  by (simp add: feeOps_def Let_def)

lemma Transaction_Inr:
  assumes "Transaction visit hdr tx msg rcpt trace ft client am wl iut = Inr t"
  shows "\<exists>tOps. traceOps visit ft 2 = Inr tOps \<and>
           logsOps client am wl iut
             (feeOps (msg_From msg) (Coinbase hdr) (GasUsed rcpt) (msg_GasPrice msg) @ tOps)
             (Logs rcpt) = Inr (Operations t)"
  using assms
  by (auto simp: Transaction_def Let_def length_feeOps split: sum.splits)

text \<open>
  C1. Whenever \<open>Transaction\<close> assembles a transaction (whatever the receipt's logs and
  the flattened trace, and in whatever order the runtime visits the destroyed accounts),
  the operation identifiers of the emitted sequence are exactly \<open>0, 1, ..., n - 1\<close> in
  this order, across the fee operations, the trace operations and the token operations.
\<close>

theorem Transaction_indices_sequential:
  assumes "Transaction visit hdr tx msg rcpt trace ft client am wl iut = Inr t"
  shows "map OperationIdentifier (Operations t) =
           map (\<lambda>i. Some (int i)) [0..<length (Operations t)]"
proof -
  let ?fee = "feeOps (msg_From msg) (Coinbase hdr) (GasUsed rcpt) (msg_GasPrice msg)"
  from Transaction_Inr [OF assms] obtain tOps where
    1: "traceOps visit ft 2 = Inr tOps" and
    2: "logsOps client am wl iut (?fee @ tOps) (Logs rcpt) = Inr (Operations t)"
    by blast
  from traceOps_sequential [OF 1] have "sequentialFrom 2 tOps" .
  then have "sequentialFrom 0 (?fee @ tOps)"
    using sequentialFrom_append [of 0 ?fee tOps] feeOps_sequential [of "msg_From msg"]
    by (simp add: length_feeOps)
  from logsOps_sequential [OF this 2] show ?thesis
    by (simp add: sequentialFrom_def)
qed

section \<open>Evaluating the examples\<close>

lemmas ex_defs =
  exHeader_def exMessage_def exTx_def exLog20_def exLog721_def exReceipt_def exCall_def
  exTrace_def exClient_def

lemmas model_defs =
  Transaction_def feeOps_def AvaxAmount_def traceOps_def traceCall_def fromOp_def toOp_def
  opStatus_def callMetadata_def zeroValue_def shouldAdd_def lastOpIndex_def CallType_def
  CreateType_def logOps_def erc20Ops_def erc721Ops_def Erc20Amount_def
  transferMethodHash_def topicsInErc721Transfer_def topicsInErc20Transfer_def
  BytesToAddress_def zeroAddress_def EqualFoldContains_def UnknownERC20Symbol_def
  UnknownERC721Symbol_def Let_def

lemma example_Transaction:
  "\<exists>t. Transaction id exHeader exTx exMessage exReceipt () exTrace exClient True [] False = Inr t \<and>
       length (Operations t) = 8 \<and>
       map (map_option Value \<circ> Amount) (take 2 (Operations t)) = [Some (- 525000), Some 525000]"
  by (simp add: ex_defs model_defs)

theorem Transaction_indices_sequential_witness:
  "(case Transaction id exHeader exTx exMessage exReceipt () exTrace exClient True [] False of
      Inl e \<Rightarrow> False
    | Inr t \<Rightarrow>
        map OperationIdentifier (Operations t) =
          [Some 0, Some 1, Some 2, Some 3, Some 4, Some 5, Some 6, Some 7])"
proof -
  obtain t where
    ev: "Transaction id exHeader exTx exMessage exReceipt () exTrace exClient True [] False = Inr t"
    and len: "length (Operations t) = 8"
    using example_Transaction by blast
  have u: "[0..<8] = [0, 1, 2, 3, 4, 5, 6, 7::nat]" by (simp add: upt_rec)
  from Transaction_indices_sequential [OF ev] len u show ?thesis
    by (simp add: ev)
qed

section \<open>The self-destruct example\<close>

text \<open>
  C6 (as the code has it). For the trace
  \<open>[{CALL, from A, to B, value 100}, {SELFDESTRUCT, from B, to A, value 0}]\<close> with
  distinct non-empty addresses \<open>A\<close> and \<open>B\<close>, \<open>traceOps\<close> yields the pair
  debit(A, -100) / credit(B, +100), then a pair of SELFDESTRUCT operations without an
  amount (B, then A linked to it), and no account-destruction operation: a self-destruct
  is not a value-transfer call kind, so its zero value does not suppress it, and the
  destroyed-account ledger of B stays at zero because B was credited before it
  self-destructed.
\<close>

theorem traceOps_selfdestruct_example:
  assumes "A \<noteq> B" and "A \<noteq> []" and "B \<noteq> []" and "range_order visit"
  shows "traceOps visit
     [\<lparr>call_Type = OpCall, call_From = A, call_To = B, call_Value = 100,
        call_Revert = False, call_Error = e1\<rparr>,
      \<lparr>call_Type = OpSelfDestruct, call_From = B, call_To = A, call_Value = 0,
        call_Revert = False, call_Error = e2\<rparr>] s =
     Inr [\<lparr>OperationIdentifier = Some s, RelatedOperations = [], Type = OpCall,
            Status = StatusSuccess, Account = AccountIdentifier A,
            Amount = Some \<lparr>Value = - 100, Currency = AvaxCurrency\<rparr>,
            CoinChange = None, Metadata = []\<rparr>,
          \<lparr>OperationIdentifier = Some (s + 1), RelatedOperations = [s], Type = OpCall,
            Status = StatusSuccess, Account = AccountIdentifier B,
            Amount = Some \<lparr>Value = 100, Currency = AvaxCurrency\<rparr>,
            CoinChange = None, Metadata = []\<rparr>,
          \<lparr>OperationIdentifier = Some (s + 2), RelatedOperations = [], Type = OpSelfDestruct,
            Status = StatusSuccess, Account = AccountIdentifier B, Amount = None,
            CoinChange = None, Metadata = []\<rparr>,
          \<lparr>OperationIdentifier = Some (s + 3), RelatedOperations = [s + 2],
            Type = OpSelfDestruct, Status = StatusSuccess, Account = AccountIdentifier A,
            Amount = None, CoinChange = None, Metadata = []\<rparr>]"
  using assms
  by (simp add: traceOps_def traceCall_def fromOp_def toOp_def opStatus_def callMetadata_def
      zeroValue_def shouldAdd_def lastOpIndex_def CallType_def CreateType_def Let_def
      range_order_single)

theorem traceOps_selfdestruct_example_witness:
  "traceOps id
     [\<lparr>call_Type = OpCall, call_From = ''0xA1'', call_To = ''0xB2'', call_Value = 100,
        call_Revert = False, call_Error = []\<rparr>,
      \<lparr>call_Type = OpSelfDestruct, call_From = ''0xB2'', call_To = ''0xA1'', call_Value = 0,
        call_Revert = False, call_Error = []\<rparr>] 2 =
     Inr [\<lparr>OperationIdentifier = Some 2, RelatedOperations = [], Type = OpCall,
            Status = StatusSuccess, Account = AccountIdentifier ''0xA1'',
            Amount = Some \<lparr>Value = - 100, Currency = AvaxCurrency\<rparr>,
            CoinChange = None, Metadata = []\<rparr>,
          \<lparr>OperationIdentifier = Some 3, RelatedOperations = [2], Type = OpCall,
            Status = StatusSuccess, Account = AccountIdentifier ''0xB2'',
            Amount = Some \<lparr>Value = 100, Currency = AvaxCurrency\<rparr>,
            CoinChange = None, Metadata = []\<rparr>,
          \<lparr>OperationIdentifier = Some 4, RelatedOperations = [], Type = OpSelfDestruct,
            Status = StatusSuccess, Account = AccountIdentifier ''0xB2'', Amount = None,
            CoinChange = None, Metadata = []\<rparr>,
          \<lparr>OperationIdentifier = Some 5, RelatedOperations = [4],
            Type = OpSelfDestruct, Status = StatusSuccess, Account = AccountIdentifier ''0xA1'',
            Amount = None, CoinChange = None, Metadata = []\<rparr>]"
  using traceOps_selfdestruct_example [of "''0xA1''" "''0xB2''" id "[]" "[]" 2]
    range_order_id [where 'a = "string \<times> int"]
  by simp

text \<open>
  The example as the specification states it fails: on the trace above (starting at
  index 2) the code emits four operations whose types are CALL, CALL, SELFDESTRUCT,
  SELFDESTRUCT, and none of type DESTRUCT; the third operation, on B, has no amount.
\<close>

theorem traceOps_selfdestruct_example_counterexample:
  "(case traceOps rev
           [\<lparr>call_Type = OpCall, call_From = ''0xA1'', call_To = ''0xB2'', call_Value = 100,
              call_Revert = False, call_Error = []\<rparr>,
            \<lparr>call_Type = OpSelfDestruct, call_From = ''0xB2'', call_To = ''0xA1'',
              call_Value = 0, call_Revert = False, call_Error = []\<rparr>] 2 of
      Inl e \<Rightarrow> False
    | Inr result \<Rightarrow>
        map Type result = [OpCall, OpCall, OpSelfDestruct, OpSelfDestruct] \<and>
        map Amount result =
          [Some \<lparr>Value = - 100, Currency = AvaxCurrency\<rparr>,
           Some \<lparr>Value = 100, Currency = AvaxCurrency\<rparr>, None, None] \<and>
        map Account result =
          [AccountIdentifier ''0xA1'', AccountIdentifier ''0xB2'',
           AccountIdentifier ''0xB2'', AccountIdentifier ''0xA1''] \<and>
        OpDestruct \<notin> set (map Type result))"
  by (simp add: traceOps_def traceCall_def fromOp_def toOp_def opStatus_def callMetadata_def
      zeroValue_def shouldAdd_def lastOpIndex_def CallType_def CreateType_def Let_def)

section \<open>The fee operations\<close>

lemma logOps_prefix:
  "logOps client am wl iut ops lg = Inr ops' \<Longrightarrow> \<exists>new. ops' = ops @ new"
  using logOps_cases by blast

lemma logsOps_prefix:
  "logsOps client am wl iut ops lgs = Inr ops' \<Longrightarrow> \<exists>new. ops' = ops @ new"
proof (induction lgs arbitrary: ops)
  case Nil
  then show ?case by simp
next
  case (Cons lg lgs)
  from Cons.prems obtain ops1 where
    1: "logOps client am wl iut ops lg = Inr ops1" and 2: "logsOps client am wl iut ops1 lgs = Inr ops'"
    by (auto split: sum.splits)
  from logOps_prefix [OF 1] Cons.IH [OF 2] show ?case by auto
qed

text \<open>
  C2. Whenever \<open>Transaction\<close> assembles a transaction, its first two operations are the
  fee operations: at index 0 a successful debit of \<open>gasUsed * gasPrice\<close> (the exact
  product of integers) from the sender, without related operations, and at index 1 a
  successful credit of the same fee to the block's fee receiver, related to operation 0.
  The witness is the example of the specification: gas used 21000 at gas price 25 gives
  the amounts -525000 and +525000.
\<close>

theorem Transaction_fee_operations:
  assumes "Transaction visit hdr tx msg rcpt trace ft client am wl iut = Inr t"
  shows "take 2 (Operations t) =
           [\<lparr> OperationIdentifier = Some 0, RelatedOperations = [], Type = OpFee,
              Status = StatusSuccess, Account = Account_helper (msg_From msg),
              Amount = Some \<lparr> Value = - (uint (GasUsed rcpt) * msg_GasPrice msg),
                              Currency = AvaxCurrency \<rparr>,
              CoinChange = None, Metadata = [] \<rparr>,
            \<lparr> OperationIdentifier = Some 1, RelatedOperations = [0], Type = OpFee,
              Status = StatusSuccess, Account = Account_helper (Coinbase hdr),
              Amount = Some \<lparr> Value = uint (GasUsed rcpt) * msg_GasPrice msg,
                              Currency = AvaxCurrency \<rparr>,
              CoinChange = None, Metadata = [] \<rparr>]"
proof -
  let ?fee = "feeOps (msg_From msg) (Coinbase hdr) (GasUsed rcpt) (msg_GasPrice msg)"
  from Transaction_Inr [OF assms] obtain tOps where
    "logsOps client am wl iut (?fee @ tOps) (Logs rcpt) = Inr (Operations t)"
    by blast
  from logsOps_prefix [OF this] obtain new where "Operations t = ?fee @ tOps @ new"
    by auto
  then have "take 2 (Operations t) = ?fee"
    by (simp add: length_feeOps)
  then show ?thesis
    by (simp add: feeOps_def AvaxAmount_def Let_def)
qed

theorem Transaction_fee_operations_witness:
  "(case Transaction id exHeader exTx exMessage exReceipt () exTrace exClient True [] False of
      Inl e \<Rightarrow> False
    | Inr t \<Rightarrow>
        GasUsed exReceipt = 21000 \<and> msg_GasPrice exMessage = 25 \<and>
        map OperationIdentifier (take 2 (Operations t)) = [Some 0, Some 1] \<and>
        map RelatedOperations (take 2 (Operations t)) = [[], [0]] \<and>
        map Amount (take 2 (Operations t)) =
          [Some \<lparr> Value = - 525000, Currency = AvaxCurrency \<rparr>,
           Some \<lparr> Value = 525000, Currency = AvaxCurrency \<rparr>])"
proof -
  obtain t where
    ev: "Transaction id exHeader exTx exMessage exReceipt () exTrace exClient True [] False = Inr t"
    using example_Transaction by blast
  have g: "GasUsed exReceipt = 21000" "msg_GasPrice exMessage = 25"
    by (simp_all add: exReceipt_def exMessage_def)
  from Transaction_fee_operations [OF ev] g
  have "map OperationIdentifier (take 2 (Operations t)) = [Some 0, Some 1] \<and>
        map RelatedOperations (take 2 (Operations t)) = [[], [0]] \<and>
        map Amount (take 2 (Operations t)) =
          [Some \<lparr> Value = - 525000, Currency = AvaxCurrency \<rparr>,
           Some \<lparr> Value = 525000, Currency = AvaxCurrency \<rparr>]"
    by simp
  with g show ?thesis
    by (simp add: ev)
qed

section \<open>Credits are linked to their debits\<close>

lemma linkedToPrevious_snoc:
  "linkedToPrevious prev (xs @ [x]) =
     (linkedToPrevious prev xs \<and>
      (RelatedOperations x = [] \<or>
       (case (if xs = [] then prev else Some (last xs)) of
          None \<Rightarrow> False
        | Some p \<Rightarrow>
            (case OperationIdentifier p of
               None \<Rightarrow> False
             | Some j \<Rightarrow> RelatedOperations p = [] \<and> RelatedOperations x = [j]))))"
  by (induction xs arbitrary: prev) auto

lemma linkedToPrevious_append:
  "linkedToPrevious prev xs \<Longrightarrow> linkedToPrevious (if xs = [] then prev else Some (last xs)) ys
     \<Longrightarrow> linkedToPrevious prev (xs @ ys)"
proof (induction xs arbitrary: prev)
  case Nil
  then show ?case by simp
next
  case (Cons a xs)
  from Cons.prems(1) have h: "linkedToPrevious (Some a) xs" by simp
  from Cons.prems(2) have "linkedToPrevious (if xs = [] then Some a else Some (last xs)) ys"
    by (cases "xs = []") simp_all
  from Cons.IH [OF h this] Cons.prems(1) show ?case by simp
qed

lemma linkedToPrevious_weaken:
  "linkedToPrevious None ys \<Longrightarrow> linkedToPrevious prev ys"
  by (cases ys) auto

lemma traceCall_linked:
  assumes "linkedToPrevious None ops" and "traceCall s (ops, d) c = Inr (ops', d')"
  shows "linkedToPrevious None ops'"
proof -
  from traceCall_ops [of s ops d c] assms(2)
  have o: "ops' = (if \<not> shouldAdd c then ops
          else if (call_Type c = OpSelfDestruct \<and> call_From c = call_To c) \<or> call_To c = []
          then ops @ [fromOp s ops c]
          else ops @ [fromOp s ops c, toOp (int (length ops) + s) c])"
    by auto
  have 1: "linkedToPrevious None (ops @ [fromOp s ops c])"
    using assms(1) by (simp add: linkedToPrevious_snoc fromOp_def)
  have "linkedToPrevious None ((ops @ [fromOp s ops c]) @ [toOp (int (length ops) + s) c])"
    unfolding linkedToPrevious_snoc [of None "ops @ [fromOp s ops c]"]
    using 1 by (simp add: fromOp_def toOp_def)
  then have 2: "linkedToPrevious None (ops @ [fromOp s ops c, toOp (int (length ops) + s) c])"
    by simp
  from o 1 2 assms(1) show ?thesis by simp
qed

lemma traceCalls_linked:
  "linkedToPrevious None ops \<Longrightarrow> traceCalls s (ops, d) cs = Inr (ops', d')
     \<Longrightarrow> linkedToPrevious None ops'"
proof (induction cs arbitrary: ops d)
  case Nil
  then show ?case by simp
next
  case (Cons c cs)
  from Cons.prems(2) obtain ops1 d1 where
    1: "traceCall s (ops, d) c = Inr (ops1, d1)" and 2: "traceCalls s (ops1, d1) cs = Inr (ops', d')"
    by (auto split: sum.splits)
  from traceCall_linked [OF Cons.prems(1) 1] Cons.IH 2 show ?case by blast
qed

lemma destructOps_linked:
  "linkedToPrevious None ops \<Longrightarrow> destructOps entries ops = Inr ops'
     \<Longrightarrow> linkedToPrevious None ops'"
proof (induction entries ops rule: destructOps.induct)
  case (1 ops)
  then show ?case by simp
next
  case (2 acct val rest ops)
  show ?case
  proof (cases "val = 0")
    case True
    with 2 show ?thesis by simp
  next
    case False
    with "2.prems"(2) have pos: "\<not> val < 0" by (auto split: if_splits)
    from False pos "2.prems"(2) obtain lastIdx where l: "lastOpIndex ops = Inr lastIdx"
      by (auto split: sum.splits)
    let ?op = "\<lparr> OperationIdentifier = Some (lastIdx + 1),
                           RelatedOperations = [],
                           Type = OpDestruct,
                           Status = StatusSuccess,
                           Account = AccountIdentifier acct,
                           Amount = Some \<lparr> Value = - val, Currency = AvaxCurrency \<rparr>,
                           CoinChange = None,
                           Metadata = [] \<rparr>"
    have lk: "linkedToPrevious None (ops @ [?op])"
      using "2.prems"(1) by (simp add: linkedToPrevious_snoc)
    from False pos l "2.prems"(2) have "destructOps rest (ops @ [?op]) = Inr ops'"
      by simp
    from "2.IH"(2) [OF False pos l lk this] show ?thesis .
  qed
qed

lemma traceOps_linked:
  assumes "traceOps visit trace s = Inr result"
  shows "linkedToPrevious None result"
proof (cases "length trace = 0")
  case True
  with assms show ?thesis by (auto simp: traceOps_def)
next
  case False
  with assms obtain ops d where
    1: "traceCalls s ([], []) trace = Inr (ops, d)" and 2: "destructOps (visit d) ops = Inr result"
    by (auto simp: traceOps_def split: sum.splits)
  have "linkedToPrevious None []" by simp
  from traceCalls_linked [OF this 1] have "linkedToPrevious None ops" .
  from destructOps_linked [OF this 2] show ?thesis .
qed

lemma erc20Ops_shape:
  assumes "erc20Ops lg cur n = Inr new"
  shows "if BytesToAddress (Topics lg ! 1) = zeroAddress \<or> BytesToAddress (Topics lg ! 2) = zeroAddress
         then length new = 1 \<and> RelatedOperations (new ! 0) = []
         else length new = 2 \<and>
              OperationIdentifier (new ! 0) = Some n \<and> RelatedOperations (new ! 0) = [] \<and>
              OperationIdentifier (new ! 1) = Some (n + 1) \<and> RelatedOperations (new ! 1) = [n]"
  using assms by (auto simp: erc20Ops_def Let_def split: if_splits)

lemma erc721Ops_shape:
  assumes "erc721Ops lg n = Inr new"
  shows "if BytesToAddress (Topics lg ! 1) = zeroAddress \<or> BytesToAddress (Topics lg ! 2) = zeroAddress
         then length new = 1 \<and> RelatedOperations (new ! 0) = []
         else length new = 2 \<and>
              OperationIdentifier (new ! 0) = Some n \<and> RelatedOperations (new ! 0) = [] \<and>
              OperationIdentifier (new ! 1) = Some (n + 1) \<and> RelatedOperations (new ! 1) = [n]"
  using assms by (auto simp: erc721Ops_def Let_def split: if_splits)

lemma erc20Ops_linked: "erc20Ops lg cur n = Inr new \<Longrightarrow> linkedToPrevious None new"
  by (auto simp: erc20Ops_def Let_def split: if_splits)

lemma erc721Ops_linked: "erc721Ops lg n = Inr new \<Longrightarrow> linkedToPrevious None new"
  by (auto simp: erc721Ops_def Let_def split: if_splits)


lemma feeOps_linked: "linkedToPrevious None (feeOps a b g p)"
  by (simp add: feeOps_def Let_def)

lemma last_feeOps: "OperationIdentifier (last (feeOps a b g p)) = Some 1"
  by (simp add: feeOps_def Let_def)

lemma logOps_linked:
  assumes "linkedToPrevious None ops" and "logOps client am wl iut ops lg = Inr ops'"
  shows "linkedToPrevious None ops'"
proof -
  from logOps_cases [OF assms(2)] show ?thesis
  proof
    assume "ops' = ops"
    with assms(1) show ?thesis by simp
  next
    assume "\<exists>new. ops' = ops @ new \<and>
           (erc721Ops lg (int (length ops)) = Inr new \<or>
            (\<exists>cur. erc20Ops lg cur (int (length ops)) = Inr new))"
    then obtain new where n: "ops' = ops @ new"
      and e: "erc721Ops lg (int (length ops)) = Inr new \<or>
            (\<exists>cur. erc20Ops lg cur (int (length ops)) = Inr new)" by blast
    from e have "linkedToPrevious None new"
      using erc20Ops_linked erc721Ops_linked by blast
    then have "linkedToPrevious (if ops = [] then None else Some (last ops)) new"
      by (rule linkedToPrevious_weaken)
    with assms(1) n show ?thesis
      using linkedToPrevious_append [of None ops new] by simp
  qed
qed

lemma logsOps_linked:
  "linkedToPrevious None ops \<Longrightarrow> logsOps client am wl iut ops lgs = Inr ops'
     \<Longrightarrow> linkedToPrevious None ops'"
proof (induction lgs arbitrary: ops)
  case Nil
  then show ?case by simp
next
  case (Cons lg lgs)
  from Cons.prems(2) obtain ops1 where
    1: "logOps client am wl iut ops lg = Inr ops1" and 2: "logsOps client am wl iut ops1 lgs = Inr ops'"
    by (auto split: sum.splits)
  from logOps_linked [OF Cons.prems(1) 1] Cons.IH 2 show ?case by blast
qed

lemma Transaction_linked:
  assumes "Transaction visit hdr tx msg rcpt trace ft client am wl iut = Inr t"
  shows "linkedToPrevious None (Operations t)"
proof -
  let ?fee = "feeOps (msg_From msg) (Coinbase hdr) (GasUsed rcpt) (msg_GasPrice msg)"
  from Transaction_Inr [OF assms] obtain tOps where
    1: "traceOps visit ft 2 = Inr tOps" and
    2: "logsOps client am wl iut (?fee @ tOps) (Logs rcpt) = Inr (Operations t)"
    by blast
  from traceOps_linked [OF 1] have "linkedToPrevious None tOps" .
  then have "linkedToPrevious (if ?fee = [] then None else Some (last ?fee)) tOps"
    by (rule linkedToPrevious_weaken)
  then have "linkedToPrevious None (?fee @ tOps)"
    using linkedToPrevious_append [of None ?fee tOps] feeOps_linked by blast
  from logsOps_linked [OF this 2] show ?thesis .
qed

text \<open>
  C5. Every credit produced by trace synthesis or token-transfer synthesis names exactly
  one related operation, the debit it is paired with, which is the operation emitted
  immediately before it.
  \<^item> One call of the trace appends nothing, the debit \<open>fromOp\<close> alone, or the debit followed
    by the credit \<open>toOp\<close>, whose only related operation is the debit's identifier.
  \<^item> In the result of \<open>traceOps\<close> every operation that names related operations names
    exactly the identifier of its predecessor.
  \<^item> \<open>erc20Ops\<close> and \<open>erc721Ops\<close> return one operation without related operations (mint,
    burn) or a send at index \<open>n\<close> followed by a receive at \<open>n + 1\<close> related to \<open>[n]\<close>.
  \<^item> The same linkage holds in the whole sequence that \<open>Transaction\<close> assembles.
\<close>

theorem credit_links_to_preceding_debit:
  "(traceCall s (ops, d) c = Inr (ops', d') \<longrightarrow>
      ops' = (if \<not> shouldAdd c then ops
              else if (call_Type c = OpSelfDestruct \<and> call_From c = call_To c) \<or> call_To c = []
              then ops @ [fromOp s ops c]
              else ops @ [fromOp s ops c, toOp (int (length ops) + s) c]) \<and>
      OperationIdentifier (fromOp s ops c) = Some (int (length ops) + s) \<and>
      RelatedOperations (fromOp s ops c) = [] \<and>
      RelatedOperations (toOp (int (length ops) + s) c) = [int (length ops) + s]) \<and>
   (traceOps visit trace s = Inr result \<longrightarrow> linkedToPrevious None result) \<and>
   (erc20Ops lg cur n = Inr new \<longrightarrow>
      linkedToPrevious None new \<and>
      (if BytesToAddress (Topics lg ! 1) = zeroAddress \<or>
          BytesToAddress (Topics lg ! 2) = zeroAddress
       then length new = 1 \<and> RelatedOperations (new ! 0) = []
       else length new = 2 \<and>
            OperationIdentifier (new ! 0) = Some n \<and> RelatedOperations (new ! 0) = [] \<and>
            OperationIdentifier (new ! 1) = Some (n + 1) \<and> RelatedOperations (new ! 1) = [n])) \<and>
   (erc721Ops lg cur' = Inr new' \<longrightarrow>
      linkedToPrevious None new' \<and>
      (if BytesToAddress (Topics lg ! 1) = zeroAddress \<or>
          BytesToAddress (Topics lg ! 2) = zeroAddress
       then length new' = 1 \<and> RelatedOperations (new' ! 0) = []
       else length new' = 2 \<and>
            OperationIdentifier (new' ! 0) = Some cur' \<and> RelatedOperations (new' ! 0) = [] \<and>
            OperationIdentifier (new' ! 1) = Some (cur' + 1) \<and>
            RelatedOperations (new' ! 1) = [cur'])) \<and>
   (Transaction visit hdr tx msg rcpt tr trace client am wl iut = Inr t \<longrightarrow>
      linkedToPrevious None (Operations t))"
proof -
  have 1: "traceCall s (ops, d) c = Inr (ops', d') \<longrightarrow>
      ops' = (if \<not> shouldAdd c then ops
              else if (call_Type c = OpSelfDestruct \<and> call_From c = call_To c) \<or> call_To c = []
              then ops @ [fromOp s ops c]
              else ops @ [fromOp s ops c, toOp (int (length ops) + s) c]) \<and>
      OperationIdentifier (fromOp s ops c) = Some (int (length ops) + s) \<and>
      RelatedOperations (fromOp s ops c) = [] \<and>
      RelatedOperations (toOp (int (length ops) + s) c) = [int (length ops) + s]"
    using traceCall_ops [of s ops d c] by (auto simp: fromOp_def toOp_def)
  have 2: "traceOps visit trace s = Inr result \<longrightarrow> linkedToPrevious None result"
    using traceOps_linked by blast
  have 3: "erc20Ops lg cur n = Inr new \<longrightarrow>
      linkedToPrevious None new \<and>
      (if BytesToAddress (Topics lg ! 1) = zeroAddress \<or>
          BytesToAddress (Topics lg ! 2) = zeroAddress
       then length new = 1 \<and> RelatedOperations (new ! 0) = []
       else length new = 2 \<and>
            OperationIdentifier (new ! 0) = Some n \<and> RelatedOperations (new ! 0) = [] \<and>
            OperationIdentifier (new ! 1) = Some (n + 1) \<and> RelatedOperations (new ! 1) = [n])"
    using erc20Ops_linked [of lg cur n new] erc20Ops_shape [of lg cur n new] by (intro impI conjI)
  have 4: "erc721Ops lg cur' = Inr new' \<longrightarrow>
      linkedToPrevious None new' \<and>
      (if BytesToAddress (Topics lg ! 1) = zeroAddress \<or>
          BytesToAddress (Topics lg ! 2) = zeroAddress
       then length new' = 1 \<and> RelatedOperations (new' ! 0) = []
       else length new' = 2 \<and>
            OperationIdentifier (new' ! 0) = Some cur' \<and> RelatedOperations (new' ! 0) = [] \<and>
            OperationIdentifier (new' ! 1) = Some (cur' + 1) \<and>
            RelatedOperations (new' ! 1) = [cur'])"
    using erc721Ops_linked [of lg cur' new'] erc721Ops_shape [of lg cur' new']
    by (intro impI conjI)
  have 5: "Transaction visit hdr tx msg rcpt tr trace client am wl iut = Inr t \<longrightarrow>
      linkedToPrevious None (Operations t)"
    by (rule impI) (rule Transaction_linked)
  from 1 2 3 4 5 show ?thesis by (intro conjI)
qed

theorem credit_links_to_preceding_debit_witness:
  "traceCall 2 ([], []) exCall = Inr ([fromOp 2 [] exCall, toOp 2 exCall], []) \<and>
   OperationIdentifier (fromOp 2 [] exCall) = Some 2 \<and>
   RelatedOperations (toOp 2 exCall) = [2] \<and>
   (case traceOps id exTrace 2 of
      Inl e \<Rightarrow> False
    | Inr result \<Rightarrow> linkedToPrevious None result \<and> map RelatedOperations result = [[], [2]]) \<and>
   (case erc20Ops exLog20 AvaxCurrency 4 of
      Inl e \<Rightarrow> False
    | Inr new \<Rightarrow> linkedToPrevious None new \<and> map RelatedOperations new = [[], [4]]) \<and>
   (case erc721Ops exLog721 6 of
      Inl e \<Rightarrow> False
    | Inr new \<Rightarrow> linkedToPrevious None new \<and> map RelatedOperations new = [[], [6]]) \<and>
   (case Transaction id exHeader exTx exMessage exReceipt () exTrace exClient True [] False of
      Inl e \<Rightarrow> False
    | Inr t \<Rightarrow>
        linkedToPrevious None (Operations t) \<and>
        map RelatedOperations (Operations t) = [[], [0], [], [2], [], [4], [], [6]])"
  using credit_links_to_preceding_debit
    [where s = 2 and ops = "[]" and d = "[]" and c = exCall
       and ops' = "[fromOp 2 [] exCall, toOp 2 exCall]" and d' = "[]"
       and visit = id and trace = exTrace and lg = exLog20 and cur = AvaxCurrency and n = 4
       and cur' = 6 and hdr = exHeader and tx = exTx and msg = exMessage and rcpt = exReceipt
       and tr = "()" and client = exClient and am = True and wl = "[]" and iut = False]
  by (simp add: ex_defs model_defs)

section \<open>Zero-value calls\<close>

lemma CallType_not_destruct_create:
  "CallType t \<Longrightarrow> t \<noteq> OpSelfDestruct \<and> \<not> CreateType t"
  by (auto simp: CallType_def CreateType_def)

lemma traceCall_skipped:
  assumes "CallType (call_Type c)" and "call_Value c = 0"
  shows "traceCall s (ops, d) c =
           Inr (ops,
                let d2 = (if call_Type c = OpSelfDestruct then AList.update (call_From c) 0 d
                          else d)
                in if (call_Type c = OpSelfDestruct \<and> call_From c = call_To c) \<or>
                      length (call_To c) = 0
                   then d2
                   else if CreateType (call_Type c) then AList.delete (call_To c) d2 else d2)"
  using assms by (simp add: traceCall_def shouldAdd_def zeroValue_def Let_def)

lemma traceCall_skipped_id:
  assumes "skippedCall c"
  shows "traceCall s st c = Inr st"
proof -
  obtain ops d where st: "st = (ops, d)" by (cases st)
  from assms have a: "CallType (call_Type c)" and b: "call_Value c = 0"
    by (simp_all add: skippedCall_def)
  from CallType_not_destruct_create [OF a] traceCall_skipped [OF a b, of s ops d] st
  show ?thesis by (simp add: Let_def)
qed

lemma traceCalls_filter_skipped:
  "traceCalls s st (filter (\<lambda>c. \<not> skippedCall c) cs) = traceCalls s st cs"
proof (induction cs arbitrary: st)
  case Nil
  then show ?case by simp
next
  case (Cons c cs)
  show ?case
  proof (cases "skippedCall c")
    case True
    then show ?thesis using Cons.IH by (simp add: traceCall_skipped_id)
  next
    case False
    then show ?thesis using Cons.IH by (simp split: sum.splits)
  qed
qed

lemma traceCalls_all_skipped:
  "list_all skippedCall cs \<Longrightarrow> traceCalls s st cs = Inr st"
  by (induction cs) (simp_all add: traceCall_skipped_id)

lemma range_order_Nil: "range_order visit \<Longrightarrow> visit [] = []"
  using range_order_set [of visit "[]"] by simp

lemma traceOps_filter_skipped:
  assumes "range_order visit"
  shows "traceOps visit (filter (\<lambda>c. \<not> skippedCall c) trace) s = traceOps visit trace s"
proof (cases "filter (\<lambda>c. \<not> skippedCall c) trace = []")
  case True
  then have "list_all skippedCall trace"
    by (simp add: filter_empty_conv list_all_iff)
  from traceCalls_all_skipped [OF this] True range_order_Nil [OF assms] show ?thesis
    by (simp add: traceOps_def)
next
  case False
  then have "trace \<noteq> []" by auto
  with False show ?thesis
    by (simp add: traceOps_def traceCalls_filter_skipped)
qed

lemma traceCall_amounts:
  assumes "list_all (\<lambda>op. CallType (Type op) \<longrightarrow> movesValue op) ops"
    and "traceCall s (ops, d) c = Inr (ops', d')"
  shows "list_all (\<lambda>op. CallType (Type op) \<longrightarrow> movesValue op) ops'"
proof -
  from traceCall_ops [of s ops d c] assms(2)
  have o: "ops' = (if \<not> shouldAdd c then ops
          else if (call_Type c = OpSelfDestruct \<and> call_From c = call_To c) \<or> call_To c = []
          then ops @ [fromOp s ops c]
          else ops @ [fromOp s ops c, toOp (int (length ops) + s) c])"
    by auto
  have f: "shouldAdd c \<Longrightarrow> CallType (Type (fromOp s ops c)) \<longrightarrow> movesValue (fromOp s ops c)"
    by (auto simp: shouldAdd_def fromOp_def movesValue_def zeroValue_def)
  have t: "shouldAdd c \<Longrightarrow> CallType (Type (toOp i c)) \<longrightarrow> movesValue (toOp i c)" for i
    by (auto simp: shouldAdd_def toOp_def movesValue_def zeroValue_def)
  from o f t assms(1) show ?thesis by (auto split: if_splits)
qed

lemma traceCalls_amounts:
  "list_all (\<lambda>op. CallType (Type op) \<longrightarrow> movesValue op) ops
     \<Longrightarrow> traceCalls s (ops, d) cs = Inr (ops', d')
     \<Longrightarrow> list_all (\<lambda>op. CallType (Type op) \<longrightarrow> movesValue op) ops'"
proof (induction cs arbitrary: ops d)
  case Nil
  then show ?case by simp
next
  case (Cons c cs)
  from Cons.prems(2) obtain ops1 d1 where
    1: "traceCall s (ops, d) c = Inr (ops1, d1)" and 2: "traceCalls s (ops1, d1) cs = Inr (ops', d')"
    by (auto split: sum.splits)
  from traceCall_amounts [OF Cons.prems(1) 1] Cons.IH 2 show ?case by blast
qed

lemma destructOps_amounts:
  "list_all (\<lambda>op. CallType (Type op) \<longrightarrow> movesValue op) ops
     \<Longrightarrow> destructOps entries ops = Inr ops'
     \<Longrightarrow> list_all (\<lambda>op. CallType (Type op) \<longrightarrow> movesValue op) ops'"
proof (induction entries ops rule: destructOps.induct)
  case (1 ops)
  then show ?case by simp
next
  case (2 acct val rest ops)
  show ?case
  proof (cases "val = 0")
    case True
    with 2 show ?thesis by simp
  next
    case False
    with "2.prems"(2) have pos: "\<not> val < 0" by (auto split: if_splits)
    from False pos "2.prems"(2) obtain lastIdx where l: "lastOpIndex ops = Inr lastIdx"
      by (auto split: sum.splits)
    let ?op = "\<lparr> OperationIdentifier = Some (lastIdx + 1),
                           RelatedOperations = [],
                           Type = OpDestruct,
                           Status = StatusSuccess,
                           Account = AccountIdentifier acct,
                           Amount = Some \<lparr> Value = - val, Currency = AvaxCurrency \<rparr>,
                           CoinChange = None,
                           Metadata = [] \<rparr>"
    have a: "list_all (\<lambda>op. CallType (Type op) \<longrightarrow> movesValue op) (ops @ [?op])"
      using "2.prems"(1) False by (simp add: movesValue_def)
    from False pos l "2.prems"(2) have "destructOps rest (ops @ [?op]) = Inr ops'"
      by simp
    from "2.IH"(2) [OF False pos l a this] show ?thesis .
  qed
qed

lemma traceOps_amounts:
  assumes "traceOps visit trace s = Inr result"
  shows "list_all (\<lambda>op. CallType (Type op) \<longrightarrow> movesValue op) result"
proof (cases "length trace = 0")
  case True
  with assms show ?thesis by (auto simp: traceOps_def)
next
  case False
  with assms obtain ops d where
    1: "traceCalls s ([], []) trace = Inr (ops, d)" and 2: "destructOps (visit d) ops = Inr result"
    by (auto simp: traceOps_def split: sum.splits)
  have "list_all (\<lambda>op. CallType (Type op) \<longrightarrow> movesValue op) []" by simp
  from traceCalls_amounts [OF this 1]
  have "list_all (\<lambda>op. CallType (Type op) \<longrightarrow> movesValue op) ops" .
  from destructOps_amounts [OF this 2] show ?thesis .
qed

text \<open>
  C7. A flattened call of a value-transfer call kind with value zero emits no operation.
  \<^item> Processing such a call leaves the operations as they are; the ledger goes through
    the same bookkeeping as for any other call (the self-destruct entry, the two
    \<^verbatim>\<open>continue\<close> tests, the removal of a created account).
  \<^item> In the result of \<open>traceOps\<close> every operation of a value-transfer call kind carries an
    amount that is not zero: no operation stems from a skipped call.
  \<^item> Removing the skipped calls from the trace does not change the result of \<open>traceOps\<close>.
\<close>

theorem zero_value_calls_emit_nothing:
  "(CallType (call_Type c) \<and> call_Value c = 0 \<longrightarrow>
      traceCall s (ops, d) c =
        Inr (ops,
             let d2 = (if call_Type c = OpSelfDestruct then AList.update (call_From c) 0 d
                       else d)
             in if (call_Type c = OpSelfDestruct \<and> call_From c = call_To c) \<or>
                   length (call_To c) = 0
                then d2
                else if CreateType (call_Type c) then AList.delete (call_To c) d2 else d2)) \<and>
   (traceOps visit trace s = Inr result \<longrightarrow>
      list_all (\<lambda>op. CallType (Type op) \<longrightarrow> movesValue op) result) \<and>
   (range_order visit \<longrightarrow>
      traceOps visit (filter (\<lambda>c. \<not> skippedCall c) trace) s = traceOps visit trace s)"
  using traceCall_skipped [of c s ops d] traceOps_amounts [of visit trace s result]
    traceOps_filter_skipped [of visit trace s]
  by (intro conjI impI) simp_all

theorem zero_value_calls_emit_nothing_witness:
  "CallType (call_Type exZeroCall) \<and> call_Value exZeroCall = 0 \<and>
   traceCall 2 ([fromOp 2 [] exCall], [(''0xB2'', 5)]) exZeroCall =
     Inr ([fromOp 2 [] exCall], [(''0xB2'', 5)]) \<and>
   (case traceOps id [exZeroCall, exCall, exZeroCall] 2 of
      Inl e \<Rightarrow> False
    | Inr result \<Rightarrow>
        list_all (\<lambda>op. CallType (Type op) \<longrightarrow> movesValue op) result \<and>
        result = [fromOp 2 [] exCall, toOp 2 exCall]) \<and>
   filter (\<lambda>c. \<not> skippedCall c) [exZeroCall, exCall, exZeroCall] = [exCall] \<and>
   traceOps id [exCall] 2 = traceOps id [exZeroCall, exCall, exZeroCall] 2"
  using zero_value_calls_emit_nothing
    [where c = exZeroCall and s = 2 and ops = "[fromOp 2 [] exCall]" and d = "[(''0xB2'', 5)]"
       and visit = id and trace = "[exZeroCall, exCall, exZeroCall]"
       and result = "[fromOp 2 [] exCall, toOp 2 exCall]"]
    range_order_id [where 'a = "string \<times> int"]
  by (simp add: exZeroCall_def exCall_def skippedCall_def movesValue_def model_defs)

section \<open>A failed contract-metadata lookup\<close>

lemma erc20Ops_total: "length (Topics lg) = 3 \<Longrightarrow> \<exists>new. erc20Ops lg cur n = Inr new"
  by (simp add: erc20Ops_def Let_def)

lemma erc721Ops_total: "length (Topics lg) = 4 \<Longrightarrow> \<exists>new. erc721Ops lg n = Inr new"
  by (simp add: erc721Ops_def Let_def)

lemma logOps_lookup_fails:
  assumes "qualifyingLog am wl lg" and "contractInfo client lg = Inl e"
  shows "logOps client am wl iut ops lg = Inl e"
  using assms
  by (auto simp: logOps_def qualifyingLog_def contractInfo_def topicsInErc721Transfer_def
      topicsInErc20Transfer_def)

lemma logOps_returns:
  assumes "\<not> lookupFails client am wl lg"
  shows "\<exists>ops'. logOps client am wl iut ops lg = Inr ops'"
proof (cases "qualifyingLog am wl lg")
  case False
  then show ?thesis
    by (auto simp: logOps_def qualifyingLog_def)
next
  case True
  with assms obtain symbol decimals where c: "contractInfo client lg = Inr (symbol, decimals)"
    by (cases "contractInfo client lg") (auto simp: lookupFails_def)
  from True have "length (Topics lg) = 4 \<or> length (Topics lg) = 3"
    by (simp add: qualifyingLog_def topicsInErc721Transfer_def topicsInErc20Transfer_def)
  then show ?thesis
  proof
    assume l: "length (Topics lg) = 4"
    from erc721Ops_total [OF l] obtain new where "erc721Ops lg (int (length ops)) = Inr new"
      by blast
    with True c l show ?thesis
      by (auto simp: logOps_def qualifyingLog_def contractInfo_def topicsInErc721Transfer_def
          topicsInErc20Transfer_def)
  next
    assume l: "length (Topics lg) = 3"
    from erc20Ops_total [OF l] obtain new where
      "erc20Ops lg (ToCurrency symbol decimals (log_Address lg)) (int (length ops)) = Inr new"
      by blast
    with True c l show ?thesis
      by (auto simp: logOps_def qualifyingLog_def contractInfo_def topicsInErc721Transfer_def
          topicsInErc20Transfer_def)
  qed
qed

lemma logsOps_first_failure:
  assumes "list_ex (lookupFails client am wl) lgs"
  shows "\<exists>pre lg post e. lgs = pre @ lg # post \<and>
           \<not> list_ex (lookupFails client am wl) pre \<and>
           qualifyingLog am wl lg \<and> contractInfo client lg = Inl e \<and>
           logsOps client am wl iut ops lgs = Inl e"
  using assms
proof (induction lgs arbitrary: ops)
  case Nil
  then show ?case by simp
next
  case (Cons l lgs)
  show ?case
  proof (cases "lookupFails client am wl l")
    case True
    then obtain e where q: "qualifyingLog am wl l" and c: "contractInfo client l = Inl e"
      by (cases "contractInfo client l") (auto simp: lookupFails_def)
    from logOps_lookup_fails [OF q c] have "logsOps client am wl iut ops (l # lgs) = Inl e"
      by simp
    with q c have "l # lgs = [] @ l # lgs \<and> \<not> list_ex (lookupFails client am wl) [] \<and>
           qualifyingLog am wl l \<and> contractInfo client l = Inl e \<and>
           logsOps client am wl iut ops (l # lgs) = Inl e"
      by simp
    then show ?thesis by blast
  next
    case False
    from logOps_returns [OF False] obtain ops1 where
      o: "logOps client am wl iut ops l = Inr ops1" by blast
    from False Cons.prems have "list_ex (lookupFails client am wl) lgs" by simp
    from Cons.IH [OF this, of ops1] obtain pre lg post e where
      h: "lgs = pre @ lg # post" "\<not> list_ex (lookupFails client am wl) pre"
         "qualifyingLog am wl lg" "contractInfo client lg = Inl e"
         "logsOps client am wl iut ops1 lgs = Inl e"
      by blast
    from h o False have "l # lgs = (l # pre) @ lg # post \<and>
           \<not> list_ex (lookupFails client am wl) (l # pre) \<and>
           qualifyingLog am wl lg \<and> contractInfo client lg = Inl e \<and>
           logsOps client am wl iut ops (l # lgs) = Inl e"
      by simp
    then show ?thesis by blast
  qed
qed

lemma Transaction_after_trace:
  assumes "traceOps visit ft 2 = Inr tOps"
  shows "Transaction visit hdr tx msg rcpt trace ft client am wl iut =
           (case logsOps client am wl iut
                   (feeOps (msg_From msg) (Coinbase hdr) (GasUsed rcpt) (msg_GasPrice msg) @ tOps)
                   (Logs rcpt) of
              Inl e \<Rightarrow> Inl e
            | Inr ops' \<Rightarrow>
                Inr \<lparr> TransactionIdentifier = tx_Hash tx,
                      Operations = ops',
                      TransactionMetadata =
                        \<lparr> meta_gas = tx_Gas tx,
                          meta_gas_price = tx_GasPrice tx,
                          meta_receipt = rcpt,
                          meta_trace = trace,
                          meta_type = tx_Type tx \<rparr> \<rparr>)"
  using assms by (simp add: Transaction_def Let_def length_feeOps)

text \<open>
  C9. If the contract-metadata lookup fails for a qualifying transfer log of the receipt,
  \<open>Transaction\<close> returns no transaction record; and once the trace stage has returned
  (the lookups are made after it), \<open>Transaction\<close> returns the error of the lookup
  unchanged. The lookup that fails is the first failing one in the order of the logs:
  no lookup is made after it.
\<close>

theorem lookup_failure_aborts_Transaction:
  assumes "list_ex (lookupFails client am wl) (Logs rcpt)"
  shows "(\<forall>t. Transaction visit hdr tx msg rcpt trace ft client am wl iut \<noteq> Inr t) \<and>
         (\<forall>tOps. traceOps visit ft 2 = Inr tOps \<longrightarrow>
            (\<exists>pre lg post e. Logs rcpt = pre @ lg # post \<and>
               \<not> list_ex (lookupFails client am wl) pre \<and>
               qualifyingLog am wl lg \<and> contractInfo client lg = Inl e \<and>
               Transaction visit hdr tx msg rcpt trace ft client am wl iut = Inl e))"
proof -
  have 2: "\<exists>pre lg post e. Logs rcpt = pre @ lg # post \<and>
               \<not> list_ex (lookupFails client am wl) pre \<and>
               qualifyingLog am wl lg \<and> contractInfo client lg = Inl e \<and>
               Transaction visit hdr tx msg rcpt trace ft client am wl iut = Inl e"
    if t: "traceOps visit ft 2 = Inr tOps" for tOps
  proof -
    from logsOps_first_failure [OF assms, of iut
        "feeOps (msg_From msg) (Coinbase hdr) (GasUsed rcpt) (msg_GasPrice msg) @ tOps"]
    obtain pre lg post e where
      h: "Logs rcpt = pre @ lg # post" "\<not> list_ex (lookupFails client am wl) pre"
         "qualifyingLog am wl lg" "contractInfo client lg = Inl e"
         "logsOps client am wl iut
            (feeOps (msg_From msg) (Coinbase hdr) (GasUsed rcpt) (msg_GasPrice msg) @ tOps)
            (Logs rcpt) = Inl e"
      by blast
    from Transaction_after_trace [OF t, of hdr tx msg rcpt trace client am wl iut] h(5)
    have "Transaction visit hdr tx msg rcpt trace ft client am wl iut = Inl e" by simp
    with h show ?thesis by blast
  qed
  have 1: "Transaction visit hdr tx msg rcpt trace ft client am wl iut \<noteq> Inr t" for t
  proof (cases "traceOps visit ft 2")
    case (Inl e)
    then show ?thesis by (simp add: Transaction_def Let_def length_feeOps)
  next
    case (Inr tOps)
    from 2 [OF this] show ?thesis by auto
  qed
  from 1 2 show ?thesis by blast
qed

theorem lookup_failure_aborts_Transaction_witness:
  "list_ex (lookupFails exFailingClient True []) (Logs exReceipt) \<and>
   contractInfo exFailingClient exLog721 = Inl (Returned ''execution reverted'') \<and>
   Transaction id exHeader exTx exMessage exReceipt () exTrace exFailingClient True [] False =
     Inl (Returned ''execution reverted'')"
  using lookup_failure_aborts_Transaction
    [of exFailingClient True "[]" exReceipt id exHeader exTx exMessage "()" exTrace False]
  by (simp add: lookupFails_def qualifyingLog_def contractInfo_def exFailingClient_def
      ex_defs model_defs)
section \<open>The loops of crossChainTransaction\<close>

lemmas atomic_ex_defs =
  exNet_def exGetHRP_def exFormat_def exAliases_def exImport_def exImportPermuted_def
  exImportOther_def exImportHuge_def exExport_def exExportOther_def exExportNoAlias_def
  exExportTwo_def signed_def

lemmas atomic_defs =
  crossChainTransaction_def createExportedOuts_def finishAtomic_def initialState_def
  X2crate_def AtomicAvaxAmount_def Let_def

lemma sint_eq_uint_small:
  fixes w :: "64 word"
  assumes "uint w < 2 ^ 63"
  shows "sint w = uint w"
proof -
  have "sint w = signed_take_bit 63 (uint w)"
    by (simp add: sint_uint)
  also have "\<dots> = uint w"
    using assms by (intro signed_take_bit_int_eq_self) (simp_all add: order_trans [of _ 0])
  finally show ?thesis .
qed

lemma importedInputsLoop_total:
  "snd (importedInputsLoop ins (m, tot)) = tot + (\<Sum>i\<leftarrow>ins. sint (in_Amount i))"
  by (induction ins arbitrary: m tot) simp_all

lemma importedInputsLoop_keys:
  "distinct (map fst m) \<Longrightarrow>
     distinct (map fst (fst (importedInputsLoop ins (m, tot)))) \<and>
     set (map fst (fst (importedInputsLoop ins (m, tot)))) = set (map fst m) \<union> in_TxID ` set ins"
proof (induction ins arbitrary: m tot)
  case Nil
  then show ?case by simp
next
  case (Cons i ins)
  have d: "distinct (map fst (AList.update (in_TxID i) () m))"
    using Cons.prems by (rule distinct_update)
  have s: "set (map fst (AList.update (in_TxID i) () m)) = {in_TxID i} \<union> set (map fst m)"
    using dom_update [of "in_TxID i" "()" m] by simp
  from Cons.IH [OF d, of "tot + sint (in_Amount i)"] s show ?case by auto
qed

lemma sum_sint_small:
  "list_all (\<lambda>i. uint (in_Amount i) < 2 ^ 63) ins \<Longrightarrow>
     (\<Sum>i\<leftarrow>ins. sint (in_Amount i)) = (\<Sum>i\<leftarrow>ins. uint (in_Amount i))"
  by (induction ins) (simp_all add: sint_eq_uint_small)

lemma importOutsLoop_totals:
  "st_totalOutputAmount (importOutsLoop avax t txIDs outs st) =
     st_totalOutputAmount st + (\<Sum>out\<leftarrow>filter (\<lambda>out. out_AssetID out = avax) outs. uint (out_Amount out)) \<and>
   st_totalInputAmount (importOutsLoop avax t txIDs outs st) = st_totalInputAmount st \<and>
   st_exportedSet (importOutsLoop avax t txIDs outs st) = st_exportedSet st \<and>
   st_exportedOuts (importOutsLoop avax t txIDs outs st) = st_exportedOuts st"
  by (induction outs arbitrary: st) (simp_all add: Let_def)

lemma importOutsLoop_tx_ids:
  "op \<in> set (st_ops (importOutsLoop avax t txIDs outs st)) \<Longrightarrow>
     op \<in> set (st_ops st) \<or> map_of (Metadata op) ''tx_ids'' = Some (MStrings txIDs)"
proof (induction outs arbitrary: st)
  case Nil
  then show ?case by simp
next
  case (Cons out outs)
  show ?case
  proof (cases "out_AssetID out \<noteq> avax")
    case True
    with Cons show ?thesis by simp
  next
    case False
    with Cons.prems Cons.IH show ?thesis
      by (fastforce simp: Let_def)
  qed
qed

lemma exportedOutsLoop_total:
  "exportedOutsLoop Format alias hrp txID k outs (operations, tot) = Inr (operations', tot') \<Longrightarrow>
     tot' = tot + (\<Sum>out\<leftarrow>outs. uint (outAmount (tout_Out out))) \<and>
     length operations' = length operations + length outs"
proof (induction outs arbitrary: k operations tot)
  case Nil
  then show ?case by simp
next
  case (Cons out outs)
  from Cons.prems obtain amt addrs where o: "tout_Out out = TransferOutput amt addrs"
    by (cases "tout_Out out") auto
  from Cons.prems o obtain addr where
    "(if length addrs > 0 then Format alias hrp (addrs ! 0) else Inr []) = Inr addr"
    by (cases "if length addrs > 0 then Format alias hrp (addrs ! 0) else Inr []") auto
  with Cons.prems o obtain op where
    r: "exportedOutsLoop Format alias hrp txID (Suc k) outs (operations @ [op], tot + uint amt) =
          Inr (operations', tot')"
    by (auto split: if_splits)
  from Cons.IH [OF r] o show ?case by simp
qed

lemma createExportedOuts_total:
  "createExportedOuts GetHRP Format ni alias txID outs = Inr (operations, tot) \<Longrightarrow>
     tot = (\<Sum>out\<leftarrow>outs. uint (outAmount (tout_Out out))) \<and> length operations = length outs"
  using exportedOutsLoop_total [of Format _ _ txID 0 outs "[]" 0 operations tot]
  by (auto simp: createExportedOuts_def split: sum.splits)

lemma exportInsLoop_totals:
  "exportInsLoop GetHRP Format ni aliases avax t ins st = Inr st' \<Longrightarrow>
     st_totalInputAmount st' =
       st_totalInputAmount st + (\<Sum>i\<leftarrow>filter (\<lambda>i. ein_AssetID i = avax) ins. uint (ein_Amount i)) \<and>
     st_totalOutputAmount st' =
       st_totalOutputAmount st +
       int (length (filter (\<lambda>i. ein_AssetID i = avax) ins)) * exportedTotal aliases t \<and>
     length (st_exportedOuts st') =
       length (st_exportedOuts st) +
       length (filter (\<lambda>i. ein_AssetID i = avax) ins) * exportedCount aliases t \<and>
     st_idx st' = st_idx st + int (length (filter (\<lambda>i. ein_AssetID i = avax) ins))"
proof (induction ins arbitrary: st)
  case Nil
  then show ?case by simp
next
  case (Cons inp ins)
  show ?case
  proof (cases "ein_AssetID inp \<noteq> avax")
    case True
    with Cons show ?thesis by simp
  next
    case False
    show ?thesis
    proof (cases "aliases (exp_DestinationChain t)")
      case None
      with False Cons.prems Cons.IH show ?thesis
        by (auto simp: Let_def exportedTotal_def exportedCount_def)
    next
      case (Some chainAlias)
      show ?thesis
      proof (cases "ExportedOutputs t")
        case None
        with Some False Cons.prems Cons.IH show ?thesis
          by (auto simp: Let_def exportedTotal_def exportedCount_def)
      next
        case (Some outs)
        note so = this
        from False \<open>aliases (exp_DestinationChain t) = Some chainAlias\<close> so Cons.prems
        obtain operations tot where
          c: "createExportedOuts GetHRP Format ni chainAlias (exp_ID t) outs = Inr (operations, tot)"
          by (cases "createExportedOuts GetHRP Format ni chainAlias (exp_ID t) outs")
            (auto simp: Let_def)
        from createExportedOuts_total [OF c]
        have tt: "tot = (\<Sum>out\<leftarrow>outs. uint (outAmount (tout_Out out)))"
          and ll: "length operations = length outs" by simp_all
        from False \<open>aliases (exp_DestinationChain t) = Some chainAlias\<close> so Cons.prems c
          Cons.IH tt ll
        show ?thesis
          by (auto simp: Let_def exportedTotal_def exportedCount_def algebra_simps)
      qed
    qed
  qed
qed


lemma crossChainTransaction_import:
  assumes "Sign_error tx = None" and "UnsignedAtomicTx tx = UnsignedImportTx t"
  shows "\<exists>ops md. crossChainTransaction visit GetHRP Format ni aliases rawIdx avax tx = Inr (ops, md) \<and>
           MetadataTxFee md =
             Some \<lparr> Value = (\<Sum>i\<leftarrow>ImportedInputs t. sint (in_Amount i)) -
                             (\<Sum>out\<leftarrow>filter (\<lambda>out. out_AssetID out = avax) (Outs t).
                                 uint (out_Amount out)),
                     Currency = AtomicAvaxCurrency \<rparr> \<and>
           MetadataExportedOutputs md = None \<and>
           (\<forall>op\<in>set ops. map_of (Metadata op) ''tx_ids'' =
              Some (MStrings (map fst (visit (fst (importedInputsLoop (ImportedInputs t) ([], 0)))))))"
proof -
  obtain m tot where l: "importedInputsLoop (ImportedInputs t) ([], 0) = (m, tot)"
    by (cases "importedInputsLoop (ImportedInputs t) ([], 0)")
  from importedInputsLoop_total [of "ImportedInputs t" "[]" 0] l
  have tot: "tot = (\<Sum>i\<leftarrow>ImportedInputs t. sint (in_Amount i))" by simp
  let ?init = "(initialState rawIdx)\<lparr> st_totalInputAmount := tot \<rparr>"
  let ?fin = "importOutsLoop avax t (map fst (visit m)) (Outs t) ?init"
  have r: "crossChainTransaction visit GetHRP Format ni aliases rawIdx avax tx =
             Inr (finishAtomic ?fin)"
    using assms l by (simp add: crossChainTransaction_def)
  from importOutsLoop_totals [of avax t "map fst (visit m)" "Outs t" ?init]
  have f: "MetadataTxFee (snd (finishAtomic ?fin)) =
             Some \<lparr> Value = tot -
                             (\<Sum>out\<leftarrow>filter (\<lambda>out. out_AssetID out = avax) (Outs t).
                                 uint (out_Amount out)),
                     Currency = AtomicAvaxCurrency \<rparr>"
    and e: "MetadataExportedOutputs (snd (finishAtomic ?fin)) = None"
    by (simp_all add: finishAtomic_def initialState_def AtomicAvaxAmount_def Let_def)
  have o: "\<forall>op\<in>set (fst (finishAtomic ?fin)).
             map_of (Metadata op) ''tx_ids'' = Some (MStrings (map fst (visit m)))"
    using importOutsLoop_tx_ids [of _ avax t "map fst (visit m)" "Outs t" ?init]
    by (auto simp: finishAtomic_def initialState_def Let_def)
  from r f e o tot l show ?thesis
    by (cases "finishAtomic ?fin") auto
qed

lemma crossChainTransaction_export:
  assumes "UnsignedAtomicTx tx = UnsignedExportTx e"
    and "crossChainTransaction visit GetHRP Format ni aliases rawIdx avax tx = Inr (ops, md)"
  shows "MetadataTxFee md =
           Some \<lparr> Value = (\<Sum>i\<leftarrow>filter (\<lambda>i. ein_AssetID i = avax) (Ins e). uint (ein_Amount i)) -
                           int (length (filter (\<lambda>i. ein_AssetID i = avax) (Ins e))) *
                             exportedTotal aliases e,
                   Currency = AtomicAvaxCurrency \<rparr>"
proof -
  from assms obtain st where
    l: "exportInsLoop GetHRP Format ni aliases avax e (Ins e) (initialState rawIdx) = Inr st"
    and f: "finishAtomic st = (ops, md)"
    by (auto simp: crossChainTransaction_def split: option.splits sum.splits)
  from exportInsLoop_totals [OF l] f show ?thesis
    by (auto simp: finishAtomic_def initialState_def AtomicAvaxAmount_def Let_def)
qed

section \<open>The fee of an atomic transaction\<close>

text \<open>
  C3 (as the code has it). The fee in the metadata is the input total minus the output
  total, in atomic units, where the asset filter applies to the EVM side only:
  \<^item> for an import whose input amounts are below \<open>2^63\<close>, the sum of the amounts of all
    imported inputs, whatever their asset, minus the sum of the amounts of the outputs
    of the native asset;
  \<^item> for an export with exactly one input of the native asset, or whose exported outputs
    do not count (nil, or a destination chain without alias), the sum of the amounts of
    the inputs of the native asset minus the sum of the amounts of the exported outputs,
    whatever their asset, when they count.
\<close>

theorem atomic_tx_fee:
  "(Sign_error tx = None \<and> UnsignedAtomicTx tx = UnsignedImportTx t \<and>
      list_all (\<lambda>i. uint (in_Amount i) < 2 ^ 63) (ImportedInputs t) \<longrightarrow>
      (\<exists>ops md.
         crossChainTransaction visit GetHRP Format ni aliases rawIdx avax tx = Inr (ops, md) \<and>
         MetadataTxFee md =
           Some \<lparr> Value = (\<Sum>i\<leftarrow>ImportedInputs t. uint (in_Amount i)) -
                           (\<Sum>out\<leftarrow>filter (\<lambda>out. out_AssetID out = avax) (Outs t).
                               uint (out_Amount out)),
                   Currency = AtomicAvaxCurrency \<rparr>)) \<and>
   (UnsignedAtomicTx tx' = UnsignedExportTx e \<and>
      crossChainTransaction visit GetHRP Format ni aliases rawIdx avax tx' = Inr (ops', md') \<and>
      (length (filter (\<lambda>i. ein_AssetID i = avax) (Ins e)) = 1 \<or>
       aliases (exp_DestinationChain e) = None \<or> ExportedOutputs e = None) \<longrightarrow>
      MetadataTxFee md' =
        Some \<lparr> Value = (\<Sum>i\<leftarrow>filter (\<lambda>i. ein_AssetID i = avax) (Ins e). uint (ein_Amount i)) -
                        exportedTotal aliases e,
                Currency = AtomicAvaxCurrency \<rparr>)"
proof -
  have 1: "Sign_error tx = None \<and> UnsignedAtomicTx tx = UnsignedImportTx t \<and>
      list_all (\<lambda>i. uint (in_Amount i) < 2 ^ 63) (ImportedInputs t) \<longrightarrow>
      (\<exists>ops md.
         crossChainTransaction visit GetHRP Format ni aliases rawIdx avax tx = Inr (ops, md) \<and>
         MetadataTxFee md =
           Some \<lparr> Value = (\<Sum>i\<leftarrow>ImportedInputs t. uint (in_Amount i)) -
                           (\<Sum>out\<leftarrow>filter (\<lambda>out. out_AssetID out = avax) (Outs t).
                               uint (out_Amount out)),
                   Currency = AtomicAvaxCurrency \<rparr>)"
  proof (intro impI, elim conjE)
    assume s: "Sign_error tx = None" and u: "UnsignedAtomicTx tx = UnsignedImportTx t"
      and a: "list_all (\<lambda>i. uint (in_Amount i) < 2 ^ 63) (ImportedInputs t)"
    from crossChainTransaction_import [OF s u, of visit GetHRP Format ni aliases rawIdx avax]
      sum_sint_small [OF a]
    show "\<exists>ops md.
         crossChainTransaction visit GetHRP Format ni aliases rawIdx avax tx = Inr (ops, md) \<and>
         MetadataTxFee md =
           Some \<lparr> Value = (\<Sum>i\<leftarrow>ImportedInputs t. uint (in_Amount i)) -
                           (\<Sum>out\<leftarrow>filter (\<lambda>out. out_AssetID out = avax) (Outs t).
                               uint (out_Amount out)),
                   Currency = AtomicAvaxCurrency \<rparr>"
      by auto
  qed
  have 2: "UnsignedAtomicTx tx' = UnsignedExportTx e \<and>
      crossChainTransaction visit GetHRP Format ni aliases rawIdx avax tx' = Inr (ops', md') \<and>
      (length (filter (\<lambda>i. ein_AssetID i = avax) (Ins e)) = 1 \<or>
       aliases (exp_DestinationChain e) = None \<or> ExportedOutputs e = None) \<longrightarrow>
      MetadataTxFee md' =
        Some \<lparr> Value = (\<Sum>i\<leftarrow>filter (\<lambda>i. ein_AssetID i = avax) (Ins e). uint (ein_Amount i)) -
                        exportedTotal aliases e,
                Currency = AtomicAvaxCurrency \<rparr>"
  proof (intro impI, elim conjE)
    assume u: "UnsignedAtomicTx tx' = UnsignedExportTx e"
      and r: "crossChainTransaction visit GetHRP Format ni aliases rawIdx avax tx' = Inr (ops', md')"
      and k: "length (filter (\<lambda>i. ein_AssetID i = avax) (Ins e)) = 1 \<or>
              aliases (exp_DestinationChain e) = None \<or> ExportedOutputs e = None"
    from k have "int (length (filter (\<lambda>i. ein_AssetID i = avax) (Ins e))) * exportedTotal aliases e =
                 exportedTotal aliases e"
      by (auto simp: exportedTotal_def split: option.splits)
    with crossChainTransaction_export [OF u r]
    show "MetadataTxFee md' =
        Some \<lparr> Value = (\<Sum>i\<leftarrow>filter (\<lambda>i. ein_AssetID i = avax) (Ins e). uint (ein_Amount i)) -
                        exportedTotal aliases e,
                Currency = AtomicAvaxCurrency \<rparr>"
      by simp
  qed
  from 1 2 show ?thesis by (intro conjI)
qed

theorem atomic_tx_fee_witness:
  "(case crossChainTransaction id exGetHRP exFormat exNet exAliases 0 ''AVAX''
           (signed (UnsignedImportTx exImport)) of
      Inl err \<Rightarrow> False
    | Inr (ops, md) \<Rightarrow> MetadataTxFee md = Some \<lparr> Value = 7, Currency = AtomicAvaxCurrency \<rparr>) \<and>
   (case crossChainTransaction id exGetHRP exFormat exNet exAliases 0 ''AVAX''
           (signed (UnsignedExportTx exExport)) of
      Inl err \<Rightarrow> False
    | Inr (ops, md) \<Rightarrow> MetadataTxFee md = Some \<lparr> Value = 5, Currency = AtomicAvaxCurrency \<rparr>)"
proof -
  have i: "Sign_error (signed (UnsignedImportTx exImport)) = None \<and>
      UnsignedAtomicTx (signed (UnsignedImportTx exImport)) = UnsignedImportTx exImport \<and>
      list_all (\<lambda>i. uint (in_Amount i) < 2 ^ 63) (ImportedInputs exImport)"
    by (simp add: signed_def exImport_def)
  obtain ops' md' where
    r: "crossChainTransaction id exGetHRP exFormat exNet exAliases 0 ''AVAX''
          (signed (UnsignedExportTx exExport)) = Inr (ops', md')"
    by (simp add: atomic_ex_defs atomic_defs)
  have x: "UnsignedAtomicTx (signed (UnsignedExportTx exExport)) = UnsignedExportTx exExport \<and>
      length (filter (\<lambda>i. ein_AssetID i = ''AVAX'') (Ins exExport)) = 1"
    by (simp add: signed_def exExport_def)
  from atomic_tx_fee [where tx = "signed (UnsignedImportTx exImport)" and t = exImport
      and visit = id and GetHRP = exGetHRP and Format = exFormat and ni = exNet
      and aliases = exAliases and rawIdx = 0 and avax = "''AVAX''"
      and tx' = "signed (UnsignedExportTx exExport)" and e = exExport and ops' = ops'
      and md' = md'] i r x
  show ?thesis
    by (auto simp: exportedTotal_def exAliases_def exImport_def exExport_def)
qed

text \<open>
  The claim as the specification states it fails on both sides. An import whose only
  input is 5 units of another asset, without outputs, gets the fee 5, where the sums
  over the native asset give 0. An export of 30 native units whose only exported output
  is 4 units of another asset gets the fee 26, where the sums over the native asset
  give 30. An export of 30 native units with an exported output of 25 native units to a
  chain that has no alias gets the fee 30, where the sums over the native asset give 5.
\<close>

theorem atomic_tx_fee_counterexample:
  "(case crossChainTransaction id exGetHRP exFormat exNet exAliases 0 ''AVAX''
           (signed (UnsignedImportTx exImportOther)) of
      Inl err \<Rightarrow> False
    | Inr (ops, md) \<Rightarrow> MetadataTxFee md = Some \<lparr> Value = 5, Currency = AtomicAvaxCurrency \<rparr>) \<and>
   (\<Sum>i\<leftarrow>filter (\<lambda>i. in_AssetID i = ''AVAX'') (ImportedInputs exImportOther). uint (in_Amount i)) -
   (\<Sum>out\<leftarrow>filter (\<lambda>out. out_AssetID out = ''AVAX'') (Outs exImportOther). uint (out_Amount out)) = 0 \<and>
   (case crossChainTransaction id exGetHRP exFormat exNet exAliases 0 ''AVAX''
           (signed (UnsignedExportTx exExportOther)) of
      Inl err \<Rightarrow> False
    | Inr (ops, md) \<Rightarrow> MetadataTxFee md = Some \<lparr> Value = 26, Currency = AtomicAvaxCurrency \<rparr>) \<and>
   (\<Sum>i\<leftarrow>filter (\<lambda>i. ein_AssetID i = ''AVAX'') (Ins exExportOther). uint (ein_Amount i)) -
   (\<Sum>out\<leftarrow>filter (\<lambda>out. tout_AssetID out = ''AVAX'')
           (case ExportedOutputs exExportOther of None \<Rightarrow> [] | Some outs \<Rightarrow> outs).
       uint (outAmount (tout_Out out))) = 30 \<and>
   (case crossChainTransaction id exGetHRP exFormat exNet exAliases 0 ''AVAX''
           (signed (UnsignedExportTx exExportNoAlias)) of
      Inl err \<Rightarrow> False
    | Inr (ops, md) \<Rightarrow> MetadataTxFee md = Some \<lparr> Value = 30, Currency = AtomicAvaxCurrency \<rparr>) \<and>
   (\<Sum>i\<leftarrow>filter (\<lambda>i. ein_AssetID i = ''AVAX'') (Ins exExportNoAlias). uint (ein_Amount i)) -
   (\<Sum>out\<leftarrow>filter (\<lambda>out. tout_AssetID out = ''AVAX'')
           (case ExportedOutputs exExportNoAlias of None \<Rightarrow> [] | Some outs \<Rightarrow> outs).
       uint (outAmount (tout_Out out))) = 5"
  by (simp add: atomic_ex_defs atomic_defs)

section \<open>Imported amounts go through int64\<close>

text \<open>
  C10. In the import branch the running input total is the sum of the amounts read as
  signed 64-bit integers; for the import whose single input has the amount \<open>2^63\<close> and
  which has no output, the total and the fee are \<open>- 2^63\<close>, not the unsigned sum
  \<open>2^63\<close>.
\<close>

theorem import_amount_through_int64:
  "(case crossChainTransaction visit GetHRP Format ni aliases rawIdx avax
           (signed (UnsignedImportTx t)) of
      Inl err \<Rightarrow> False
    | Inr (ops, md) \<Rightarrow>
        MetadataTxFee md =
          Some \<lparr> Value = (\<Sum>i\<leftarrow>ImportedInputs t. sint (in_Amount i)) -
                          (\<Sum>out\<leftarrow>filter (\<lambda>out. out_AssetID out = avax) (Outs t).
                              uint (out_Amount out)),
                  Currency = AtomicAvaxCurrency \<rparr>) \<and>
   map (\<lambda>i. uint (in_Amount i)) (ImportedInputs exImportHuge) = [2 ^ 63] \<and>
   Outs exImportHuge = [] \<and>
   crossChainTransaction id exGetHRP exFormat exNet exAliases 0 ''AVAX''
       (signed (UnsignedImportTx exImportHuge)) =
     Inr ([], \<lparr> MetadataExportedOutputs = None,
                MetadataTxFee = Some \<lparr> Value = - (2 ^ 63), Currency = AtomicAvaxCurrency \<rparr> \<rparr>)"
proof -
  have s: "Sign_error (signed (UnsignedImportTx t)) = None"
    and u: "UnsignedAtomicTx (signed (UnsignedImportTx t)) = UnsignedImportTx t"
    by (simp_all add: signed_def)
  from crossChainTransaction_import [OF s u, of visit GetHRP Format ni aliases rawIdx avax]
  have 1: "(case crossChainTransaction visit GetHRP Format ni aliases rawIdx avax
           (signed (UnsignedImportTx t)) of
      Inl err \<Rightarrow> False
    | Inr (ops, md) \<Rightarrow>
        MetadataTxFee md =
          Some \<lparr> Value = (\<Sum>i\<leftarrow>ImportedInputs t. sint (in_Amount i)) -
                          (\<Sum>out\<leftarrow>filter (\<lambda>out. out_AssetID out = avax) (Outs t).
                              uint (out_Amount out)),
                  Currency = AtomicAvaxCurrency \<rparr>)"
    by auto
  have 2: "map (\<lambda>i. uint (in_Amount i)) (ImportedInputs exImportHuge) = [2 ^ 63] \<and>
   Outs exImportHuge = [] \<and>
   crossChainTransaction id exGetHRP exFormat exNet exAliases 0 ''AVAX''
       (signed (UnsignedImportTx exImportHuge)) =
     Inr ([], \<lparr> MetadataExportedOutputs = None,
                MetadataTxFee = Some \<lparr> Value = - (2 ^ 63), Currency = AtomicAvaxCurrency \<rparr> \<rparr>)"
    by (simp add: atomic_ex_defs atomic_defs)
  from 1 2 show ?thesis by (intro conjI) simp_all
qed

section \<open>Exported outputs\<close>

text \<open>
  C4. The export with two inputs of the native asset and one exported output to a chain
  with an alias: the code builds the operations of the exported outputs once per
  native input, so the metadata holds two operations for the one exported output, at
  indices 2 and 3, both creating the coin \<open>tx2:0\<close>, and the output total counts the
  exported amount twice (fee \<open>30 - 2 * 25 = - 20\<close>).
\<close>

theorem exported_outputs_once_per_input:
  "map_option length (ExportedOutputs exExportTwo) = Some 1 \<and>
   length (filter (\<lambda>i. ein_AssetID i = ''AVAX'') (Ins exExportTwo)) = 2 \<and>
   (case crossChainTransaction id exGetHRP exFormat exNet exAliases 0 ''AVAX''
           (signed (UnsignedExportTx exExportTwo)) of
      Inl err \<Rightarrow> False
    | Inr (ops, md) \<Rightarrow>
        map OperationIdentifier ops = [Some 0, Some 1] \<and>
        MetadataTxFee md = Some \<lparr> Value = - 20, Currency = AtomicAvaxCurrency \<rparr> \<and>
        (case MetadataExportedOutputs md of
           None \<Rightarrow> False
         | Some outs \<Rightarrow>
             map OperationIdentifier outs = [Some 2, Some 3] \<and>
             map CoinChange outs =
               [Some \<lparr> CoinIdentifier = \<lparr> utxo_TxID = ''tx2'', utxo_OutputIndex = 0 \<rparr>,
                       CoinAction = CoinCreated \<rparr>,
                Some \<lparr> CoinIdentifier = \<lparr> utxo_TxID = ''tx2'', utxo_OutputIndex = 0 \<rparr>,
                       CoinAction = CoinCreated \<rparr>]))"
  by (simp add: atomic_ex_defs atomic_defs)

section \<open>The source transaction ids of an import\<close>

lemma txIDsOf_distinct_set:
  assumes "range_order visit"
  shows "distinct (txIDsOf visit ins) \<and> set (txIDsOf visit ins) = in_TxID ` set ins"
proof -
  let ?m = "fst (importedInputsLoop ins ([], 0))"
  from importedInputsLoop_keys [of "[]" ins 0]
  have dk: "distinct (map fst ?m)" and sk: "set (map fst ?m) = in_TxID ` set ins"
    by simp_all
  from dk have dm: "distinct ?m" by (simp add: distinct_map)
  from range_order_distinct [OF assms dm] range_order_set [OF assms dm] dm
  have "mset (visit ?m) = mset ?m"
    by (simp add: set_eq_iff_mset_eq_distinct)
  then have m: "mset (map fst (visit ?m)) = mset (map fst ?m)"
    by simp
  from m dk have "distinct (map fst (visit ?m))"
    using mset_eq_imp_distinct_iff by blast
  moreover from m sk have "set (map fst (visit ?m)) = in_TxID ` set ins"
    using mset_eq_setD by blast
  ultimately show ?thesis by (simp add: txIDsOf_def)
qed

lemma crossChainTransaction_import_tx_ids:
  assumes "UnsignedAtomicTx tx = UnsignedImportTx t"
    and "crossChainTransaction visit GetHRP Format ni aliases rawIdx avax tx = Inr (ops, md)"
    and "op \<in> set ops"
  shows "map_of (Metadata op) ''tx_ids'' = Some (MStrings (txIDsOf visit (ImportedInputs t)))"
proof -
  from assms(2) have s: "Sign_error tx = None"
    by (cases "Sign_error tx") (simp_all add: crossChainTransaction_def)
  from crossChainTransaction_import [OF s assms(1), of visit GetHRP Format ni aliases rawIdx avax]
    assms(2,3)
  show ?thesis by (auto simp: txIDsOf_def)
qed

text \<open>
  C8 (as the code has it). The \<open>tx_ids\<close> list of every import operation is
  duplicate-free and holds exactly the source transaction ids of the imported inputs.
  Two runs, also on transactions whose imported inputs are permutations of each other,
  give lists with the same elements (one is a permutation of the other); their order is
  that of the runtime's iteration over a map.
\<close>

theorem import_tx_ids_duplicate_free:
  assumes "range_order visit" and "range_order visit'"
    and "UnsignedAtomicTx tx = UnsignedImportTx t"
    and "UnsignedAtomicTx tx' = UnsignedImportTx t'"
    and "mset (ImportedInputs t') = mset (ImportedInputs t)"
    and "crossChainTransaction visit GetHRP Format ni aliases rawIdx avax tx = Inr (ops, md)"
    and "crossChainTransaction visit' GetHRP' Format' ni' aliases' rawIdx' avax' tx' =
           Inr (ops', md')"
    and "op \<in> set ops" and "op' \<in> set ops'"
  shows "\<exists>ids ids'.
           map_of (Metadata op) ''tx_ids'' = Some (MStrings ids) \<and>
           map_of (Metadata op') ''tx_ids'' = Some (MStrings ids') \<and>
           distinct ids \<and> set ids = in_TxID ` set (ImportedInputs t) \<and>
           mset ids' = mset ids"
proof -
  let ?ids = "txIDsOf visit (ImportedInputs t)"
  let ?ids' = "txIDsOf visit' (ImportedInputs t')"
  from crossChainTransaction_import_tx_ids [OF assms(3) assms(6) assms(8)]
  have 1: "map_of (Metadata op) ''tx_ids'' = Some (MStrings ?ids)" .
  from crossChainTransaction_import_tx_ids [OF assms(4) assms(7) assms(9)]
  have 2: "map_of (Metadata op') ''tx_ids'' = Some (MStrings ?ids')" .
  from txIDsOf_distinct_set [OF assms(1), of "ImportedInputs t"]
  have d: "distinct ?ids" and s: "set ?ids = in_TxID ` set (ImportedInputs t)" by simp_all
  from txIDsOf_distinct_set [OF assms(2), of "ImportedInputs t'"]
  have d': "distinct ?ids'" and s': "set ?ids' = in_TxID ` set (ImportedInputs t')" by simp_all
  from assms(5) have "set (ImportedInputs t') = set (ImportedInputs t)"
    by (rule mset_eq_setD)
  with s s' have "set ?ids' = set ?ids" by simp
  with d d' have "mset ?ids' = mset ?ids"
    by (simp add: set_eq_iff_mset_eq_distinct)
  with 1 2 d s show ?thesis by blast
qed

lemma example_import_ops:
  "\<exists>op md. crossChainTransaction id exGetHRP exFormat exNet exAliases 0 ''AVAX''
              (signed (UnsignedImportTx exImport)) = Inr ([op], md) \<and>
           map_of (Metadata op) ''tx_ids'' = Some (MStrings [''a'', ''b''])"
  by (simp add: atomic_ex_defs atomic_defs)

lemma example_import_permuted_ops:
  "\<exists>op md. crossChainTransaction rev exGetHRP exFormat exNet exAliases 0 ''AVAX''
              (signed (UnsignedImportTx exImportPermuted)) = Inr ([op], md) \<and>
           map_of (Metadata op) ''tx_ids'' = Some (MStrings [''a'', ''b''])"
  by (simp add: atomic_ex_defs atomic_defs)

theorem import_tx_ids_duplicate_free_witness:
  "(case (crossChainTransaction id exGetHRP exFormat exNet exAliases 0 ''AVAX''
            (signed (UnsignedImportTx exImport)),
          crossChainTransaction rev exGetHRP exFormat exNet exAliases 0 ''AVAX''
            (signed (UnsignedImportTx exImportPermuted))) of
      (Inr (ops, md), Inr (ops', md')) \<Rightarrow>
        length ops = 1 \<and> length ops' = 1 \<and>
        (\<exists>ids ids'.
           map_of (Metadata (hd ops)) ''tx_ids'' = Some (MStrings ids) \<and>
           map_of (Metadata (hd ops')) ''tx_ids'' = Some (MStrings ids') \<and>
           distinct ids \<and> set ids = {''a'', ''b''} \<and> mset ids' = mset ids)
    | _ \<Rightarrow> False)"
proof -
  obtain op md where
    1: "crossChainTransaction id exGetHRP exFormat exNet exAliases 0 ''AVAX''
          (signed (UnsignedImportTx exImport)) = Inr ([op], md)"
    using example_import_ops by blast
  obtain op' md' where
    2: "crossChainTransaction rev exGetHRP exFormat exNet exAliases 0 ''AVAX''
          (signed (UnsignedImportTx exImportPermuted)) = Inr ([op'], md')"
    using example_import_permuted_ops by blast
  have u: "UnsignedAtomicTx (signed (UnsignedImportTx exImport)) = UnsignedImportTx exImport"
    and u': "UnsignedAtomicTx (signed (UnsignedImportTx exImportPermuted)) =
               UnsignedImportTx exImportPermuted"
    by (simp_all add: signed_def)
  have p: "mset (ImportedInputs exImportPermuted) = mset (ImportedInputs exImport)"
    by (simp add: exImportPermuted_def exImport_def)
  have i: "in_TxID ` set (ImportedInputs exImport) = {''a'', ''b''}"
    by (auto simp: exImport_def)
  from import_tx_ids_duplicate_free [OF range_order_id range_order_rev u u' p 1 2, of op op'] i
  show ?thesis
    by (simp add: 1 2)
qed

text \<open>
  The list is not a function of the input set: on the same import transaction two legal
  iteration orders give \<open>[a, b]\<close> and \<open>[b, a]\<close>, and under one iteration order
  permuting the imported inputs changes \<open>[a, b]\<close> into \<open>[b, a]\<close>.
\<close>

theorem import_tx_ids_counterexample:
  "range_order (id :: (string \<times> unit) list \<Rightarrow> (string \<times> unit) list) \<and>
   range_order (rev :: (string \<times> unit) list \<Rightarrow> (string \<times> unit) list) \<and>
   (case crossChainTransaction id exGetHRP exFormat exNet exAliases 0 ''AVAX''
           (signed (UnsignedImportTx exImport)) of
      Inl err \<Rightarrow> False
    | Inr (ops, md) \<Rightarrow>
        map (\<lambda>op. map_of (Metadata op) ''tx_ids'') ops = [Some (MStrings [''a'', ''b''])]) \<and>
   (case crossChainTransaction rev exGetHRP exFormat exNet exAliases 0 ''AVAX''
           (signed (UnsignedImportTx exImport)) of
      Inl err \<Rightarrow> False
    | Inr (ops, md) \<Rightarrow>
        map (\<lambda>op. map_of (Metadata op) ''tx_ids'') ops = [Some (MStrings [''b'', ''a''])]) \<and>
   mset (ImportedInputs exImportPermuted) = mset (ImportedInputs exImport) \<and>
   (case crossChainTransaction id exGetHRP exFormat exNet exAliases 0 ''AVAX''
           (signed (UnsignedImportTx exImportPermuted)) of
      Inl err \<Rightarrow> False
    | Inr (ops, md) \<Rightarrow>
        map (\<lambda>op. map_of (Metadata op) ''tx_ids'') ops = [Some (MStrings [''b'', ''a''])])"
  by (simp add: range_order_id range_order_rev atomic_ex_defs atomic_defs)

end
